theory Spec2Isabelle
  imports Complex_Main "HOL-Library.Word"
begin

section \<open>Errors\<close>

text \<open>
  A \<open>GError\<close> is a domain, a code and a message.  The OpenSlide domain has the codes the
  Leica reader uses; the file domain carries the code derived from \<open>errno\<close>.
  Besides returning an error, the C code can run into undefined behaviour (a NULL or
  out-of-range read, a floating-point value converted to an integer type that cannot
  hold it) or stop in \<open>g_assert\<close>; both are outcomes of their own.
\<close>

datatype error_code =
    OPENSLIDE_ERROR_FAILED
  | OPENSLIDE_ERROR_BAD_DATA
  | OPENSLIDE_ERROR_FORMAT_NOT_SUPPORTED
  | G_FILE_ERROR nat

datatype failure =
    GError error_code string
  | Undefined_Behaviour
  | Assertion_Failed

section \<open>File size (openslide-file.c)\<close>

text \<open>
  A \<open>FILE\<close> stream opened for reading: the length of the file, the current position and
  the last \<open>errno\<close>.  Whether a call of the C library fails is not decided by the
  program, so the stream carries a script: the outcome of each coming call, \<open>None\<close> for
  a call that works and \<open>Some e\<close> for a call that fails with \<open>errno = e\<close>.  An empty
  script means that every further call works.
\<close>

record FILE =
  file_length :: nat
  file_position :: nat
  errno :: nat
  script :: "nat option list"

datatype whence = SEEK_SET | SEEK_CUR | SEEK_END

definition EINVAL :: nat where
  "EINVAL = 22"

definition next_outcome :: "FILE \<Rightarrow> nat option \<times> FILE" where
  "next_outcome fp =
     (case script fp of
        [] \<Rightarrow> (None, fp)
      | r # rs \<Rightarrow> (r, fp\<lparr>script := rs\<rparr>))"

definition ftello :: "FILE \<Rightarrow> int \<times> FILE" where
  "ftello fp =
     (case next_outcome fp of
        (Some e, fp') \<Rightarrow> (- 1, fp'\<lparr>errno := e\<rparr>)
      | (None, fp') \<Rightarrow> (int (file_position fp'), fp'))"

definition fseeko :: "FILE \<Rightarrow> int \<Rightarrow> whence \<Rightarrow> int \<times> FILE" where
  "fseeko fp offset wh =
     (case next_outcome fp of
        (Some e, fp') \<Rightarrow> (- 1, fp'\<lparr>errno := e\<rparr>)
      | (None, fp') \<Rightarrow>
          (let target =
                 (case wh of
                    SEEK_SET \<Rightarrow> offset
                  | SEEK_CUR \<Rightarrow> int (file_position fp') + offset
                  | SEEK_END \<Rightarrow> int (file_length fp') + offset)
           in if target < 0 then (- 1, fp'\<lparr>errno := EINVAL\<rparr>)
              else (0, fp'\<lparr>file_position := nat target\<rparr>)))"

record openslide_file =
  fp :: FILE
  path :: string

text \<open>
  \<open>io_error\<close> formats its message and appends the text of \<open>errno\<close>; the model keeps the
  \<open>errno\<close> in the code and the formatted part in the message.
\<close>

definition io_error :: "FILE \<Rightarrow> string \<Rightarrow> failure" where
  "io_error f msg = GError (G_FILE_ERROR (errno f)) msg"

fun g_prefix_error :: "failure option \<Rightarrow> string \<Rightarrow> failure option" where
  "g_prefix_error (Some (GError c m)) p = Some (GError c (p @ m))"
| "g_prefix_error e p = e"

definition openslide_fseek ::
  "openslide_file \<Rightarrow> int \<Rightarrow> whence \<Rightarrow> bool \<times> failure option \<times> openslide_file" where
  "openslide_fseek file offset wh =
     (case fseeko (fp file) offset wh of
        (r, fp') \<Rightarrow>
          if r \<noteq> 0
          then (False, Some (io_error fp' (''Couldn't seek file '' @ path file)), file\<lparr>fp := fp'\<rparr>)
          else (True, None, file\<lparr>fp := fp'\<rparr>))"

definition openslide_ftell ::
  "openslide_file \<Rightarrow> int \<times> failure option \<times> openslide_file" where
  "openslide_ftell file =
     (case ftello (fp file) of
        (ret, fp') \<Rightarrow>
          if ret = - 1
          then (ret, Some (io_error fp' (''Couldn't get offset of '' @ path file)), file\<lparr>fp := fp'\<rparr>)
          else (ret, None, file\<lparr>fp := fp'\<rparr>))"

definition openslide_fsize ::
  "openslide_file \<Rightarrow> int \<times> failure option \<times> openslide_file" where
  "openslide_fsize file =
     (case openslide_ftell file of
        (orig, err, file1) \<Rightarrow>
          if orig = - 1 then (- 1, g_prefix_error err ''Couldn't get size: '', file1)
          else
            (case openslide_fseek file1 0 SEEK_END of
               (ok, err, file2) \<Rightarrow>
                 if \<not> ok then (- 1, g_prefix_error err ''Couldn't get size: '', file2)
                 else
                   (case openslide_ftell file2 of
                      (ret, err, file3) \<Rightarrow>
                        if ret = - 1 then (- 1, g_prefix_error err ''Couldn't get size: '', file3)
                        else
                          (case openslide_fseek file3 orig SEEK_SET of
                             (ok, err, file4) \<Rightarrow>
                               if \<not> ok
                               then (- 1, g_prefix_error err ''Couldn't get size: '', file4)
                               else (ret, None, file4)))))"

text \<open>The calls of the C library that \<open>openslide_fsize\<close> makes are the first four of the script.\<close>

definition calls_work :: "nat \<Rightarrow> FILE \<Rightarrow> bool" where
  "calls_work n f = list_all (\<lambda>r. r = None) (take n (script f))"


section \<open>Double-precision numbers\<close>

text \<open>
  The C code computes click densities in \<open>double\<close>.  The model keeps the special values
  of IEEE 754 that the reader can produce from a manifest (signed zeros, infinities, NaN:
  a \<open>sizeX\<close> of 0 is enough) and their rules for division, subtraction and comparison.
  Rounding is not modelled: the finite result of an operation is the exact real number.
  \<open>Finite 0\<close> is the positive zero.
\<close>

datatype double = Finite real | NegZero | PosInf | NegInf | NaN

fun is_nan :: "double \<Rightarrow> bool" where
  "is_nan NaN = True"
| "is_nan _ = False"

fun is_inf :: "double \<Rightarrow> bool" where
  "is_inf PosInf = True"
| "is_inf NegInf = True"
| "is_inf _ = False"

fun signbit :: "double \<Rightarrow> bool" where
  "signbit (Finite r) = (r < 0)"
| "signbit NegZero = True"
| "signbit PosInf = False"
| "signbit NegInf = True"
| "signbit NaN = False"

fun magnitude :: "double \<Rightarrow> real" where
  "magnitude (Finite r) = r"
| "magnitude _ = 0"

definition is_zero :: "double \<Rightarrow> bool" where
  "is_zero d = (d = Finite 0 \<or> d = NegZero)"

definition signed_zero :: "bool \<Rightarrow> double" where
  "signed_zero neg = (if neg then NegZero else Finite 0)"

definition signed_inf :: "bool \<Rightarrow> double" where
  "signed_inf neg = (if neg then NegInf else PosInf)"

definition double_of_int64 :: "int \<Rightarrow> double" where
  "double_of_int64 i = Finite (of_int i)"

definition double_div :: "double \<Rightarrow> double \<Rightarrow> double" where
  "double_div a b =
     (if is_nan a \<or> is_nan b then NaN
      else if is_inf a then (if is_inf b then NaN else signed_inf (signbit a \<noteq> signbit b))
      else if is_inf b then signed_zero (signbit a \<noteq> signbit b)
      else if is_zero b then (if is_zero a then NaN else signed_inf (signbit a \<noteq> signbit b))
      else if is_zero a then signed_zero (signbit a \<noteq> signbit b)
      else Finite (magnitude a / magnitude b))"

definition double_sub :: "double \<Rightarrow> double \<Rightarrow> double" where
  "double_sub a b =
     (if is_nan a \<or> is_nan b then NaN
      else if is_inf a then (if is_inf b \<and> signbit a = signbit b then NaN else a)
      else if is_inf b then signed_inf (\<not> signbit b)
      else if magnitude a - magnitude b = 0
           then (if a = NegZero \<and> b = Finite 0 then NegZero else Finite 0)
      else Finite (magnitude a - magnitude b))"

fun fabs :: "double \<Rightarrow> double" where
  "fabs (Finite r) = Finite \<bar>r\<bar>"
| "fabs NegZero = Finite 0"
| "fabs PosInf = PosInf"
| "fabs NegInf = PosInf"
| "fabs NaN = NaN"

text \<open>The comparisons \<open><\<close> and \<open>>=\<close> of C: both are false when an operand is NaN.\<close>

definition double_less :: "double \<Rightarrow> double \<Rightarrow> bool" where
  "double_less a b =
     (if is_nan a \<or> is_nan b then False
      else if a = NegInf then b \<noteq> NegInf
      else if b = PosInf then a \<noteq> PosInf
      else if a = PosInf \<or> b = NegInf then False
      else magnitude a < magnitude b)"


fun ceil :: "double \<Rightarrow> double" where
  "ceil (Finite r) = (if \<lceil>r\<rceil> = 0 \<and> r < 0 then NegZero else Finite (of_int \<lceil>r\<rceil>))"
| "ceil d = d"

text \<open>
  The conversion of a \<open>double\<close> to \<open>int64_t\<close> discards the fraction.  A value whose
  integral part is not an \<open>int64_t\<close>, an infinity or a NaN has no defined result in C
  (\<open>None\<close>).
\<close>

definition int64_of_double :: "double \<Rightarrow> int option" where
  "int64_of_double d =
     (case d of
        Finite r \<Rightarrow>
          (let t = (if 0 \<le> r then \<lfloor>r\<rfloor> else \<lceil>r\<rceil>)
           in if - (2 ^ 63) \<le> t \<and> t < 2 ^ 63 then Some t else None)
      | NegZero \<Rightarrow> Some 0
      | _ \<Rightarrow> None)"

text \<open>The macro \<open>MIN\<close> of GLib, \<open>(((a) < (b)) ? (a) : (b))\<close>, on doubles.\<close>

definition MIN_double :: "double \<Rightarrow> double \<Rightarrow> double" where
  "MIN_double a b = (if double_less a b then a else b)"

section \<open>Data parsed from the ImageDescription XML (openslide-vendor-leica.c)\<close>

text \<open>A \<open>char *\<close> that may be \<open>NULL\<close> is a \<open>string option\<close>; an \<open>int64_t\<close> is an \<open>int\<close>.\<close>

record dimension =
  dir :: int
  width :: int
  height :: int
  clicks_per_pixel :: double

record image =
  creation_date :: "string option"
  device_model :: "string option"
  device_version :: "string option"
  illumination_source :: "string option"
  objective :: "string option"
  aperture :: "string option"
  is_macro :: bool
  clicks_across :: int
  clicks_down :: int
  clicks_offset_x :: int
  clicks_offset_y :: int
  dimensions :: "dimension list"

record collection =
  barcode :: "string option"
  clicks_across :: int
  clicks_down :: int
  images :: "image list"

definition LEICA_VALUE_BRIGHTFIELD :: string where
  "LEICA_VALUE_BRIGHTFIELD = ''brightfield''"

subsection \<open>The manifest\<close>

text \<open>
  The XML document as the parser's XPath queries see it.  An attribute read with
  \<open>PARSE_INT_ATTRIBUTE_OR_FAIL\<close> is an \<open>int option\<close>: \<open>None\<close> when the attribute is
  missing or is not an integer.  The attribute \<open>z\<close> is read as text.
\<close>

record xml_dimension =
  attr_z :: "string option"
  attr_ifd :: "int option"
  dim_sizeX :: "int option"
  dim_sizeY :: "int option"

record xml_view =
  view_sizeX :: "int option"
  view_sizeY :: "int option"
  view_offsetX :: "int option"
  view_offsetY :: "int option"

record xml_image =
  view :: "xml_view option"
  xml_creation_date :: "string option"
  xml_device_model :: "string option"
  xml_device_version :: "string option"
  xml_illumination_source :: "string option"
  xml_objective :: "string option"
  xml_aperture :: "string option"
  pixels :: "xml_dimension list"

record xml_collection =
  xml_barcode :: "string option"
  coll_sizeX :: "int option"
  coll_sizeY :: "int option"
  xml_images :: "xml_image list"

text \<open>
  The input of the parser: text that is not XML (with the XML parser's message), or a
  document, with whether its default namespace is the Leica one and its
  \<open>/scn/collection\<close> element if it has one.
\<close>

datatype xml_input =
    Not_XML string
  | Document bool "xml_collection option"

text \<open>
  Modelled from the spec: \<open>_openslide_xml_parse_int_attr\<close> is declared in
  openslide-decode-xml.h and defined outside these sources; the spec says that a missing
  or non-integer attribute fails with \<open>BadData\<close>.
\<close>

definition xml_parse_int_attr :: "string \<Rightarrow> int option \<Rightarrow> failure + int" where
  "xml_parse_int_attr name v =
     (case v of
        None \<Rightarrow> Inl (GError OPENSLIDE_ERROR_BAD_DATA (''No integer attribute '' @ name))
      | Some i \<Rightarrow> Inr i)"

subsection \<open>Sorting the dimensions\<close>

definition dimension_compare :: "dimension \<Rightarrow> dimension \<Rightarrow> int" where
  "dimension_compare da db =
     (if width da > width db then - 1
      else if width da = width db then 0
      else 1)"

text \<open>
  Modelled from the spec: \<open>g_ptr_array_sort\<close> is GLib's and outside these sources; the
  spec says that ties are preserved in input order, which is the stable sort that GLib
  documents.  The model is the insertion sort that puts an element before the first one
  it does not compare greater than.
\<close>

fun insert_sorted :: "('a \<Rightarrow> 'a \<Rightarrow> int) \<Rightarrow> 'a \<Rightarrow> 'a list \<Rightarrow> 'a list" where
  "insert_sorted cmp x [] = [x]"
| "insert_sorted cmp x (y # ys) =
     (if cmp x y \<le> 0 then x # y # ys else y # insert_sorted cmp x ys)"

definition g_ptr_array_sort :: "('a \<Rightarrow> 'a \<Rightarrow> int) \<Rightarrow> 'a list \<Rightarrow> 'a list" where
  "g_ptr_array_sort cmp xs = foldr (insert_sorted cmp) xs []"

subsection \<open>parse_xml_description\<close>

definition z_plane_0 :: "xml_dimension \<Rightarrow> bool" where
  "z_plane_0 n = (case attr_z n of None \<Rightarrow> True | Some z \<Rightarrow> z = ''0'')"

text \<open>One pass of the loop over the \<open>dimension\<close> nodes of an image.\<close>

fun parse_dimensions :: "int \<Rightarrow> xml_dimension list \<Rightarrow> failure + dimension list" where
  "parse_dimensions image_clicks_across [] = Inr []"
| "parse_dimensions image_clicks_across (n # ns) =
     (if \<not> z_plane_0 n then parse_dimensions image_clicks_across ns
      else
        case xml_parse_int_attr ''ifd'' (attr_ifd n) of
          Inl e \<Rightarrow> Inl e
        | Inr d \<Rightarrow>
       (case xml_parse_int_attr ''sizeX'' (dim_sizeX n) of
          Inl e \<Rightarrow> Inl e
        | Inr wd \<Rightarrow>
       (case xml_parse_int_attr ''sizeY'' (dim_sizeY n) of
          Inl e \<Rightarrow> Inl e
        | Inr ht \<Rightarrow>
       (case parse_dimensions image_clicks_across ns of
          Inl e \<Rightarrow> Inl e
        | Inr ds \<Rightarrow>
            Inr (\<lparr>dir = d, width = wd, height = ht,
                  clicks_per_pixel =
                    double_div (double_of_int64 image_clicks_across) (double_of_int64 wd)\<rparr>
                 # ds)))))"

text \<open>
  The body of the loop over the \<open>image\<close> nodes.  \<open>_openslide_xml_xpath_eval\<close> is
  defined outside these sources; as the messages of its callers say, it returns \<open>NULL\<close>
  when no node matches, so an image without \<open>dimension\<close> nodes is an error.
\<close>

definition parse_image :: "int \<Rightarrow> int \<Rightarrow> xml_image \<Rightarrow> failure + image" where
  "parse_image coll_across coll_down n =
     (case view n of
        None \<Rightarrow> Inl (GError OPENSLIDE_ERROR_BAD_DATA ''Can't find view node'')
      | Some v \<Rightarrow>
     (case xml_parse_int_attr ''sizeX'' (view_sizeX v) of
        Inl e \<Rightarrow> Inl e
      | Inr across \<Rightarrow>
     (case xml_parse_int_attr ''sizeY'' (view_sizeY v) of
        Inl e \<Rightarrow> Inl e
      | Inr down \<Rightarrow>
     (case xml_parse_int_attr ''offsetX'' (view_offsetX v) of
        Inl e \<Rightarrow> Inl e
      | Inr off_x \<Rightarrow>
     (case xml_parse_int_attr ''offsetY'' (view_offsetY v) of
        Inl e \<Rightarrow> Inl e
      | Inr off_y \<Rightarrow>
          if pixels n = []
          then Inl (GError OPENSLIDE_ERROR_BAD_DATA ''Can't find any dimensions in image'')
          else
            (case parse_dimensions across (pixels n) of
               Inl e \<Rightarrow> Inl e
             | Inr ds \<Rightarrow>
                 Inr \<lparr>creation_date = xml_creation_date n,
                      device_model = xml_device_model n,
                      device_version = xml_device_version n,
                      illumination_source = xml_illumination_source n,
                      objective = xml_objective n,
                      aperture = xml_aperture n,
                      is_macro = (off_x = 0 \<and> off_y = 0 \<and>
                                  across = coll_across \<and> down = coll_down),
                      image.clicks_across = across,
                      image.clicks_down = down,
                      clicks_offset_x = off_x,
                      clicks_offset_y = off_y,
                      dimensions = g_ptr_array_sort dimension_compare ds\<rparr>))))))"

fun parse_images :: "int \<Rightarrow> int \<Rightarrow> xml_image list \<Rightarrow> failure + image list" where
  "parse_images coll_across coll_down [] = Inr []"
| "parse_images coll_across coll_down (n # ns) =
     (case parse_image coll_across coll_down n of
        Inl e \<Rightarrow> Inl e
      | Inr i \<Rightarrow>
          (case parse_images coll_across coll_down ns of
             Inl e \<Rightarrow> Inl e
           | Inr rest \<Rightarrow> Inr (i # rest)))"

definition parse_xml_description :: "xml_input \<Rightarrow> failure + collection" where
  "parse_xml_description xml =
     (case xml of
        Not_XML msg \<Rightarrow> Inl (GError OPENSLIDE_ERROR_FORMAT_NOT_SUPPORTED msg)
      | Document leica_ns coll \<Rightarrow>
          if \<not> leica_ns
          then Inl (GError OPENSLIDE_ERROR_FORMAT_NOT_SUPPORTED ''Unexpected XML namespace'')
          else
            (case coll of
               None \<Rightarrow> Inl (GError OPENSLIDE_ERROR_BAD_DATA ''Can't find collection element'')
             | Some cn \<Rightarrow>
            (case xml_parse_int_attr ''sizeX'' (coll_sizeX cn) of
               Inl e \<Rightarrow> Inl e
             | Inr across \<Rightarrow>
            (case xml_parse_int_attr ''sizeY'' (coll_sizeY cn) of
               Inl e \<Rightarrow> Inl e
             | Inr down \<Rightarrow>
                 if xml_images cn = []
                 then Inl (GError OPENSLIDE_ERROR_BAD_DATA ''Can't find any images'')
                 else
                   (case parse_images across down (xml_images cn) of
                      Inl e \<Rightarrow> Inl e
                    | Inr parsed \<Rightarrow>
                        Inr \<lparr>barcode = xml_barcode cn,
                             clicks_across = across,
                             clicks_down = down,
                             images = parsed\<rparr>)))))"

section \<open>Level synthesis (openslide-vendor-leica.c)\<close>

subsection \<open>Levels and areas\<close>

text \<open>
  \<open>struct _openslide_tiff_level\<close> and \<open>struct _openslide_level\<close> are declared in
  OpenSlide's private headers; the records have the fields this file reads or writes.
  A simple grid is the four numbers \<open>_openslide_grid_create_simple\<close> is given.
\<close>

record tiff_level =
  dir :: int
  tiles_across :: int
  tiles_down :: int
  tile_w :: int
  tile_h :: int

datatype grid = Simple_Grid int int int int

record area =
  tiffl :: tiff_level
  grid :: "grid option"
  clicks_offset_x :: int
  clicks_offset_y :: int

record openslide_level =
  downsample :: double
  w :: int
  h :: int

record level =
  base :: openslide_level
  clicks_per_pixel :: double
  areas :: "area list"

text \<open>What \<open>g_slice_new0\<close> returns: every field zero.\<close>

definition zero_area :: area where
  "zero_area =
     \<lparr>tiffl = \<lparr>dir = 0, tiles_across = 0, tiles_down = 0, tile_w = 0, tile_h = 0\<rparr>,
      grid = None, clicks_offset_x = 0, clicks_offset_y = 0\<rparr>"

definition zero_level :: level where
  "zero_level =
     \<lparr>base = \<lparr>downsample = Finite 0, w = 0, h = 0\<rparr>,
      clicks_per_pixel = Finite 0, areas = []\<rparr>"

subsection \<open>The TIFF collaborator\<close>

text \<open>
  libtiff and OpenSlide's TIFF helpers are outside these sources.  The synthesis depends
  on them through the results of four calls, each a function of the directory asked for:
  \<open>_openslide_tiff_level_init\<close>, \<open>TIFFGetField\<close> of the compression tag of the directory
  just selected, \<open>TIFFIsCODECConfigured\<close>, and \<open>_openslide_tiff_add_associated_image\<close>.
\<close>

record tiff_collab =
  tiff_level_init :: "int \<Rightarrow> failure + tiff_level"
  compression_tag :: "int \<Rightarrow> nat option"
  codec_configured :: "nat \<Rightarrow> bool"
  tiff_add_associated_image :: "int \<Rightarrow> failure option"

text \<open>The \<open>%u\<close> of an error message: a number in decimal digits.\<close>

definition digit_char :: "nat \<Rightarrow> char" where
  "digit_char k = char_of (of_char CHR ''0'' + k)"

fun format_unsigned :: "nat \<Rightarrow> string" where
  "format_unsigned n =
     (let q = n div 10
      in (if q = 0 then [] else format_unsigned q) @ [digit_char (n mod 10)])"

subsection \<open>should_use_legacy_quickhash\<close>

text \<open>The two counters are \<open>uint32_t\<close>; the loop returns from inside at the first
  main image that is not brightfield.\<close>

fun legacy_quickhash_loop :: "image list \<Rightarrow> 32 word \<Rightarrow> 32 word \<Rightarrow> bool" where
  "legacy_quickhash_loop [] brightfield_main_images macro_images =
     (brightfield_main_images = 1 \<and> macro_images \<le> 1)"
| "legacy_quickhash_loop (img # rest) brightfield_main_images macro_images =
     (if is_macro img
      then legacy_quickhash_loop rest brightfield_main_images (macro_images + 1)
      else if illumination_source img \<noteq> Some LEICA_VALUE_BRIGHTFIELD then False
      else legacy_quickhash_loop rest (brightfield_main_images + 1) macro_images)"

definition should_use_legacy_quickhash :: "collection \<Rightarrow> bool" where
  "should_use_legacy_quickhash collection = legacy_quickhash_loop (images collection) 0 0"

subsection \<open>create_levels_from_collection: the main images\<close>

text \<open>
  The area is appended to the level before the TIFF directory is examined, and filled in
  afterwards; \<open>new_area\<close> gives the area as it stands when the loop body ends, and the
  failure that ended it, if any.  (What a failed \<open>_openslide_tiff_level_init\<close> leaves in
  \<open>tiffl\<close> is not known here; the model leaves the zeros.)
\<close>

definition new_area :: "tiff_collab \<Rightarrow> image \<Rightarrow> dimension \<Rightarrow> area \<times> failure option" where
  "new_area tc img dimension =
     (case tiff_level_init tc (dimension.dir dimension) of
        Inl e \<Rightarrow> (zero_area, Some e)
      | Inr lv \<Rightarrow>
          (let area = zero_area\<lparr>tiffl := lv,
                                clicks_offset_x := image.clicks_offset_x img,
                                clicks_offset_y := image.clicks_offset_y img\<rparr>
           in case compression_tag tc (dimension.dir dimension) of
                None \<Rightarrow>
                  (area, Some (GError OPENSLIDE_ERROR_BAD_DATA ''Can't read compression scheme''))
              | Some compression \<Rightarrow>
                  if \<not> codec_configured tc compression
                  then (area, Some (GError OPENSLIDE_ERROR_BAD_DATA
                          (''Unsupported TIFF compression: '' @ format_unsigned compression)))
                  else (area\<lparr>grid := Some (Simple_Grid (tiles_across lv) (tiles_down lv)
                                               (tile_w lv) (tile_h lv))\<rparr>,
                        None)))"

definition add_area :: "level list \<Rightarrow> nat \<Rightarrow> area \<Rightarrow> level list" where
  "add_area levels k a = levels[k := (levels ! k)\<lparr>areas := areas (levels ! k) @ [a]\<rparr>]"

definition resolution_similarity :: "double \<Rightarrow> double \<Rightarrow> double" where
  "resolution_similarity cpp first_cpp =
     double_sub (Finite 1) (double_div (fabs (double_sub cpp first_cpp)) first_cpp)"

text \<open>
  The body of the loop over the dimensions of a main image.  \<open>is_first\<close> is the test
  \<open>image == first_main_image\<close>.  The result is the level array as the body leaves it and
  the failure with which it returned, if it did.
\<close>

definition process_dimension ::
  "tiff_collab \<Rightarrow> image \<Rightarrow> image \<Rightarrow> bool \<Rightarrow> nat \<Rightarrow> dimension \<Rightarrow> level list
     \<Rightarrow> level list \<times> failure option" where
  "process_dimension tc first_main_image img is_first dimension_num dimension levels =
     (if is_first then
        (let l = zero_level\<lparr>clicks_per_pixel := dimension.clicks_per_pixel dimension\<rparr>;
             levels1 = levels @ [l]
         in case new_area tc img dimension of
              (a, e) \<Rightarrow> (add_area levels1 (length levels) a, e))
      else if \<not> dimension_num < length levels then (levels, Some Assertion_Failed)
      else
        (let l = levels ! dimension_num;
             levels1 = levels[dimension_num :=
                         l\<lparr>clicks_per_pixel :=
                             MIN_double (clicks_per_pixel l)
                               (dimension.clicks_per_pixel dimension)\<rparr>]
         in if \<not> dimension_num < length (dimensions first_main_image)
            then (levels1, Some Undefined_Behaviour)
            else
              (let first_image_dimension = dimensions first_main_image ! dimension_num
               in if double_less
                       (resolution_similarity (dimension.clicks_per_pixel dimension)
                          (dimension.clicks_per_pixel first_image_dimension))
                       (Finite (98 / 100))
                  then (levels1, Some (GError OPENSLIDE_ERROR_BAD_DATA
                                         ''Inconsistent main image resolutions''))
                  else
                    (case new_area tc img dimension of
                       (a, e) \<Rightarrow> (add_area levels1 dimension_num a, e)))))"

fun process_dimensions ::
  "tiff_collab \<Rightarrow> image \<Rightarrow> image \<Rightarrow> bool \<Rightarrow> nat \<Rightarrow> dimension list \<Rightarrow> level list
     \<Rightarrow> level list \<times> failure option" where
  "process_dimensions tc first_main_image img is_first dimension_num [] levels =
     (levels, None)"
| "process_dimensions tc first_main_image img is_first dimension_num (d # ds) levels =
     (case process_dimension tc first_main_image img is_first dimension_num d levels of
        (levels1, Some e) \<Rightarrow> (levels1, Some e)
      | (levels1, None) \<Rightarrow>
          process_dimensions tc first_main_image img is_first (Suc dimension_num) ds levels1)"

text \<open>The variables of \<open>create_levels_from_collection\<close> that the first loop changes.\<close>

record main_state =
  levels :: "level list"
  first_main_image :: "image option"
  quickhash_dir :: int

definition brightfield :: "image \<Rightarrow> bool" where
  "brightfield img = (illumination_source img = Some LEICA_VALUE_BRIGHTFIELD)"

text \<open>
  The body of the loop over the images.  \<open>strcmp\<close> on the objective reads through the
  pointer, so an image without an objective is undefined behaviour.  The properties that
  the loop sets on \<open>osr\<close> are not part of the model.
\<close>

definition process_main_image ::
  "tiff_collab \<Rightarrow> bool \<Rightarrow> image \<Rightarrow> main_state \<Rightarrow> main_state \<times> failure option" where
  "process_main_image tc legacy_quickhash img st =
     (if is_macro img then (st, None)
      else if \<not> brightfield img then (st, None)
      else
        (let is_first = (first_main_image st = None);
             first = (case first_main_image st of None \<Rightarrow> img | Some f \<Rightarrow> f);
             st1 = st\<lparr>first_main_image := Some first\<rparr>
         in if illumination_source img \<noteq> illumination_source first
            then (st1, Some (GError OPENSLIDE_ERROR_BAD_DATA
                               ''Slides with dissimilar main images are not supported''))
            else
              (case (objective img, objective first) of
                 (Some image_objective, Some first_objective) \<Rightarrow>
                   if image_objective \<noteq> first_objective \<or>
                      length (dimensions img) \<noteq> length (dimensions first)
                   then (st1, Some (GError OPENSLIDE_ERROR_BAD_DATA
                                      ''Slides with dissimilar main images are not supported''))
                   else
                     (case process_dimensions tc first img is_first 0 (dimensions img)
                             (levels st1) of
                        (levels1, Some e) \<Rightarrow> (st1\<lparr>levels := levels1\<rparr>, Some e)
                      | (levels1, None) \<Rightarrow>
                          if legacy_quickhash \<and> is_first
                          then if dimensions img = []
                               then (st1\<lparr>levels := levels1\<rparr>, Some Undefined_Behaviour)
                               else (st1\<lparr>levels := levels1,
                                         quickhash_dir :=
                                           dimension.dir (last (dimensions img))\<rparr>,
                                     None)
                          else (st1\<lparr>levels := levels1\<rparr>, None))
               | _ \<Rightarrow> (st1, Some Undefined_Behaviour))))"

fun process_main_images ::
  "tiff_collab \<Rightarrow> bool \<Rightarrow> image list \<Rightarrow> main_state \<Rightarrow> main_state \<times> failure option" where
  "process_main_images tc legacy_quickhash [] st = (st, None)"
| "process_main_images tc legacy_quickhash (img # rest) st =
     (case process_main_image tc legacy_quickhash img st of
        (st1, Some e) \<Rightarrow> (st1, Some e)
      | (st1, None) \<Rightarrow> process_main_images tc legacy_quickhash rest st1)"

subsection \<open>create_levels_from_collection: the level sizes\<close>

definition level_size :: "int \<Rightarrow> double \<Rightarrow> int option" where
  "level_size clicks cpp = int64_of_double (ceil (double_div (double_of_int64 clicks) cpp))"

text \<open>
  Storing the \<open>double\<close> that \<open>ceil\<close> returns in the \<open>int64_t\<close> fields converts it; the
  loop stops being defined at the first level whose size is not an \<open>int64_t\<close>.
\<close>

fun set_level_sizes :: "collection \<Rightarrow> level list \<Rightarrow> level list \<times> failure option" where
  "set_level_sizes collection [] = ([], None)"
| "set_level_sizes collection (l # ls) =
     (case level_size (clicks_across collection) (clicks_per_pixel l) of
        None \<Rightarrow> (l # ls, Some Undefined_Behaviour)
      | Some lw \<Rightarrow>
     (case level_size (clicks_down collection) (clicks_per_pixel l) of
        None \<Rightarrow> (l\<lparr>base := (base l)\<lparr>w := lw\<rparr>\<rparr> # ls, Some Undefined_Behaviour)
      | Some lh \<Rightarrow>
          (case set_level_sizes collection ls of
             (ls1, e) \<Rightarrow> (l\<lparr>base := (base l)\<lparr>w := lw, h := lh\<rparr>\<rparr> # ls1, e))))"

subsection \<open>create_levels_from_collection: the macro image\<close>

record macro_state =
  have_macro_image :: bool
  macro_quickhash_dir :: int

definition process_macro_image ::
  "tiff_collab \<Rightarrow> bool \<Rightarrow> image \<Rightarrow> macro_state \<Rightarrow> macro_state \<times> failure option" where
  "process_macro_image tc legacy_quickhash img st =
     (if \<not> is_macro img then (st, None)
      else if \<not> brightfield img then (st, None)
      else if have_macro_image st
      then (st, Some (GError OPENSLIDE_ERROR_BAD_DATA ''Found multiple macro images''))
      else if dimensions img = [] then (st, Some Undefined_Behaviour)
      else
        (case tiff_add_associated_image tc (dimension.dir (hd (dimensions img))) of
           Some e \<Rightarrow> (st, Some e)
         | None \<Rightarrow>
             (st\<lparr>have_macro_image := True,
                 macro_quickhash_dir :=
                   (if \<not> legacy_quickhash then dimension.dir (last (dimensions img))
                    else macro_quickhash_dir st)\<rparr>,
              None)))"

fun process_macro_images ::
  "tiff_collab \<Rightarrow> bool \<Rightarrow> image list \<Rightarrow> macro_state \<Rightarrow> macro_state \<times> failure option" where
  "process_macro_images tc legacy_quickhash [] st = (st, None)"
| "process_macro_images tc legacy_quickhash (img # rest) st =
     (case process_macro_image tc legacy_quickhash img st of
        (st1, Some e) \<Rightarrow> (st1, Some e)
      | (st1, None) \<Rightarrow> process_macro_images tc legacy_quickhash rest st1)"

subsection \<open>create_levels_from_collection\<close>

text \<open>
  The function fills the caller's level array and \<open>*quickhash_dir\<close> and returns a
  \<open>bool\<close>; the model returns the level array and \<open>*quickhash_dir\<close> as the function leaves
  them, and \<open>None\<close> for \<open>true\<close> or the failure.
\<close>

definition create_levels_from_collection ::
  "tiff_collab \<Rightarrow> collection \<Rightarrow> level list \<Rightarrow> level list \<times> int \<times> failure option" where
  "create_levels_from_collection tc collection levels0 =
     (let legacy_quickhash = should_use_legacy_quickhash collection
      in case process_main_images tc legacy_quickhash (images collection)
                \<lparr>levels = levels0, first_main_image = None, quickhash_dir = - 1\<rparr> of
           (st, Some e) \<Rightarrow> (levels st, quickhash_dir st, Some e)
         | (st, None) \<Rightarrow>
             if first_main_image st = None
             then (levels st, quickhash_dir st,
                   Some (GError OPENSLIDE_ERROR_BAD_DATA ''Can't find main image''))
             else
               (case set_level_sizes collection (levels st) of
                  (levels1, Some e) \<Rightarrow> (levels1, quickhash_dir st, Some e)
                | (levels1, None) \<Rightarrow>
                    (case process_macro_images tc legacy_quickhash (images collection)
                            \<lparr>have_macro_image = False,
                             macro_quickhash_dir = quickhash_dir st\<rparr> of
                       (m, Some e) \<Rightarrow> (levels1, macro_quickhash_dir m, Some e)
                     | (m, None) \<Rightarrow>
                         if macro_quickhash_dir m = - 1
                         then (levels1, macro_quickhash_dir m,
                               Some (GError OPENSLIDE_ERROR_BAD_DATA
                                       ''Couldn't locate TIFF directory for quickhash''))
                         else (levels1, macro_quickhash_dir m, None))))"

section \<open>Painting a region (openslide-vendor-leica.c)\<close>










section \<open>Notions of the specification\<close>

text \<open>The dimensions of an image node in the order of the manifest, before sorting.\<close>

definition manifest_dimension :: "int \<Rightarrow> xml_dimension \<Rightarrow> dimension option" where
  "manifest_dimension image_clicks_across n =
     (case (attr_ifd n, dim_sizeX n, dim_sizeY n) of
        (Some d, Some wd, Some ht) \<Rightarrow>
          Some \<lparr>dimension.dir = d, width = wd, height = ht,
                dimension.clicks_per_pixel =
                  double_div (double_of_int64 image_clicks_across) (double_of_int64 wd)\<rparr>
      | _ \<Rightarrow> None)"

definition manifest_dimensions :: "int \<Rightarrow> xml_image \<Rightarrow> dimension list" where
  "manifest_dimensions image_clicks_across n =
     List.map_filter (manifest_dimension image_clicks_across) (filter z_plane_0 (pixels n))"

text \<open>The rule for a macro image: no offset, and the size of the collection.\<close>

definition macro_rule :: "collection \<Rightarrow> image \<Rightarrow> bool" where
  "macro_rule c i =
     (image.clicks_offset_x i = 0 \<and> image.clicks_offset_y i = 0 \<and>
      image.clicks_across i = clicks_across c \<and> image.clicks_down i = clicks_down c)"

text \<open>
  The surviving main images are the images that are not macro images and are brightfield,
  in the order of the collection; the brightfield macro images likewise.
\<close>

definition main_image :: "image \<Rightarrow> bool" where
  "main_image i = (\<not> is_macro i \<and> brightfield i)"

definition surviving :: "collection \<Rightarrow> image list" where
  "surviving c = filter main_image (images c)"

definition brightfield_macros :: "collection \<Rightarrow> image list" where
  "brightfield_macros c = filter (\<lambda>i. is_macro i \<and> brightfield i) (images c)"

text \<open>The click density of dimension \<open>k\<close> of an image.\<close>

definition density :: "nat \<Rightarrow> image \<Rightarrow> double" where
  "density k i = dimension.clicks_per_pixel (dimensions i ! k)"

text \<open>
  Level \<open>k\<close> after the first main image \<open>f\<close> and the further main images \<open>ps\<close> have
  been processed: the density minimised in the order of the images, one area per image.
\<close>

definition main_level :: "tiff_collab \<Rightarrow> image \<Rightarrow> image list \<Rightarrow> nat \<Rightarrow> level" where
  "main_level tc f ps k =
     \<lparr>base = base zero_level,
      clicks_per_pixel = foldl MIN_double (density k f) (map (density k) ps),
      areas = map (\<lambda>i. fst (new_area tc i (dimensions i ! k))) (f # ps)\<rparr>"

text \<open>The start of \<open>create_levels_from_collection\<close> on an empty level array.\<close>

definition initial_state :: main_state where
  "initial_state = \<lparr>levels = [], first_main_image = None, quickhash_dir = - 1\<rparr>"

text \<open>What an image adds to a level when one of its dimensions is accepted.\<close>

definition contribute :: "tiff_collab \<Rightarrow> image \<Rightarrow> dimension \<Rightarrow> level \<Rightarrow> level" where
  "contribute tc i d l =
     l\<lparr>clicks_per_pixel := MIN_double (clicks_per_pixel l) (dimension.clicks_per_pixel d),
       areas := areas l @ [fst (new_area tc i d)]\<rparr>"

text \<open>The resolution check of a later main image, against the first one.\<close>

definition similar_enough :: "image \<Rightarrow> nat \<Rightarrow> dimension \<Rightarrow> bool" where
  "similar_enough f k d =
     (\<not> double_less (resolution_similarity (dimension.clicks_per_pixel d) (density k f))
          (Finite (98 / 100)))"

text \<open>
  The state of the first loop after the first main image \<open>f\<close> and the later main
  images \<open>ps\<close> have been processed without failure.
\<close>

definition main_inv :: "tiff_collab \<Rightarrow> bool \<Rightarrow> image \<Rightarrow> image list \<Rightarrow> main_state \<Rightarrow> bool" where
  "main_inv tc lq f ps st \<longleftrightarrow>
     first_main_image st = Some f \<and>
     levels st = map (main_level tc f ps) [0..<length (dimensions f)] \<and>
     objective f \<noteq> None \<and>
     (\<forall>i \<in> set (f # ps). main_image i \<and> objective i = objective f \<and>
        length (dimensions i) = length (dimensions f) \<and>
        (\<forall>d \<in> set (dimensions i). snd (new_area tc i d) = None)) \<and>
     (\<forall>i \<in> set ps. \<forall>k < length (dimensions i). similar_enough f k (dimensions i ! k)) \<and>
     quickhash_dir st = (if lq then dimension.dir (last (dimensions f)) else - 1) \<and>
     (lq \<longrightarrow> dimensions f \<noteq> [])"


definition dissimilar :: failure where
  "dissimilar = GError OPENSLIDE_ERROR_BAD_DATA ''Slides with dissimilar main images are not supported''"

text \<open>A level before and after its size has been set.\<close>

definition sized :: "collection \<Rightarrow> level \<Rightarrow> level \<Rightarrow> bool" where
  "sized c l l' \<longleftrightarrow>
     clicks_per_pixel l' = clicks_per_pixel l \<and> areas l' = areas l \<and>
     level_size (clicks_across c) (clicks_per_pixel l) = Some (w (base l')) \<and>
     level_size (clicks_down c) (clicks_per_pixel l) = Some (h (base l'))"


text \<open>An offset in clicks that lies on the canvas of the collection.\<close>

definition in_canvas :: "collection \<Rightarrow> int \<Rightarrow> int \<Rightarrow> bool" where
  "in_canvas c ox oy \<longleftrightarrow> 0 \<le> ox \<and> ox < clicks_across c \<and> 0 \<le> oy \<and> oy < clicks_down c"

text \<open>
  \<open>q\<close> is the directory of the last dimension of the image, and no dimension of the
  image is narrower than that one.
\<close>

definition smallest_dimension_dir :: "image \<Rightarrow> int \<Rightarrow> bool" where
  "smallest_dimension_dir i q \<longleftrightarrow>
     dimensions i \<noteq> [] \<and> q = dimension.dir (last (dimensions i)) \<and>
     (\<forall>d \<in> set (dimensions i). width (last (dimensions i)) \<le> width d)"

definition no_quickhash_dir :: failure where
  "no_quickhash_dir =
     GError OPENSLIDE_ERROR_BAD_DATA ''Couldn't locate TIFF directory for quickhash''"

definition inconsistent_resolutions :: failure where
  "inconsistent_resolutions =
     GError OPENSLIDE_ERROR_BAD_DATA ''Inconsistent main image resolutions''"

text \<open>
  The first loop, the test for a main image and the loop over the level sizes all pass.
\<close>

definition main_phase_passes :: "tiff_collab \<Rightarrow> collection \<Rightarrow> bool" where
  "main_phase_passes tc c =
     (case process_main_images tc (should_use_legacy_quickhash c) (images c) initial_state of
        (st, Some e) \<Rightarrow> False
      | (st, None) \<Rightarrow>
          first_main_image st \<noteq> None \<and> snd (set_level_sizes c (levels st)) = None)"

text \<open>Widths that never grow along the list, and widths that always shrink.\<close>

definition descending :: "dimension list \<Rightarrow> bool" where
  "descending ds = sorted_wrt (\<lambda>a b. width a \<ge> width b) ds"

definition strictly_descending :: "dimension list \<Rightarrow> bool" where
  "strictly_descending ds = sorted_wrt (\<lambda>a b. width a > width b) ds"



section \<open>Examples\<close>

definition xml_dim :: "int \<Rightarrow> int \<Rightarrow> int \<Rightarrow> xml_dimension" where
  "xml_dim ifd sx sy =
     \<lparr>attr_z = None, attr_ifd = Some ifd, dim_sizeX = Some sx, dim_sizeY = Some sy\<rparr>"

definition xml_img ::
  "string \<Rightarrow> string \<Rightarrow> int \<times> int \<Rightarrow> int \<times> int \<Rightarrow> xml_dimension list \<Rightarrow> xml_image" where
  "xml_img illum obj sz off dims =
     \<lparr>view = Some \<lparr>view_sizeX = Some (fst sz), view_sizeY = Some (snd sz),
                    view_offsetX = Some (fst off), view_offsetY = Some (snd off)\<rparr>,
      xml_creation_date = None, xml_device_model = None, xml_device_version = None,
      xml_illumination_source = Some illum, xml_objective = Some obj, xml_aperture = None,
      pixels = dims\<rparr>"

definition xml_doc :: "int \<times> int \<Rightarrow> xml_image list \<Rightarrow> xml_input" where
  "xml_doc sz imgs =
     Document True (Some \<lparr>xml_barcode = None, coll_sizeX = Some (fst sz),
                           coll_sizeY = Some (snd sz), xml_images = imgs\<rparr>)"

text \<open>A TIFF file in which every directory is tiled and JPEG-compressed.\<close>

definition tiff_ok :: tiff_collab where
  "tiff_ok =
     \<lparr>tiff_level_init = (\<lambda>d. Inr \<lparr>dir = d, tiles_across = 4, tiles_down = 4,
                                   tile_w = 256, tile_h = 256\<rparr>),
      compression_tag = (\<lambda>d. Some 7),
      codec_configured = (\<lambda>c. True),
      tiff_add_associated_image = (\<lambda>d. None)\<rparr>"

text \<open>A file of 1000 bytes read up to byte 10, with a given script.\<close>

definition example_file :: "nat option list \<Rightarrow> openslide_file" where
  "example_file sc =
     \<lparr>fp = \<lparr>file_length = 1000, file_position = 10, errno = 0, script = sc\<rparr>,
      path = ''slide.scn''\<rparr>"

text \<open>The collection a manifest parses to, and the levels synthesised from it.\<close>

definition parsed :: "xml_input \<Rightarrow> collection" where
  "parsed x =
     (case parse_xml_description x of
        Inr c \<Rightarrow> c
      | Inl e \<Rightarrow> \<lparr>barcode = None, clicks_across = 0, clicks_down = 0, images = []\<rparr>)"

definition synthesized :: "xml_input \<Rightarrow> level list" where
  "synthesized x = fst (create_levels_from_collection tiff_ok (parsed x) [])"

definition manifest_images :: "xml_input \<Rightarrow> xml_image list" where
  "manifest_images x = (case x of Document ns (Some cn) \<Rightarrow> xml_images cn | _ \<Rightarrow> [])"

text \<open>One main image, no macro image.\<close>

definition slide_one_main :: xml_input where
  "slide_one_main =
     xml_doc (200000, 100000)
       [xml_img ''brightfield'' ''20'' (100000, 80000) (50000, 10000)
          [xml_dim 1 1000 800, xml_dim 2 500 400]]"

text \<open>One main image and a macro image; the main image lists its smaller dimension first.\<close>

definition slide_main_macro :: xml_input where
  "slide_main_macro =
     xml_doc (200000, 100000)
       [xml_img ''brightfield'' ''20'' (100000, 80000) (50000, 10000)
          [xml_dim 2 500 400, xml_dim 1 1000 800],
        xml_img ''brightfield'' ''1'' (200000, 100000) (0, 0) [xml_dim 10 200 100]]"

text \<open>Two main images side by side, of densities 100 and 99, with and without a macro image.\<close>

definition slide_two_mains :: xml_input where
  "slide_two_mains =
     xml_doc (200000, 100000)
       [xml_img ''brightfield'' ''20'' (100000, 100000) (0, 0)
          [xml_dim 1 1000 1000, xml_dim 2 500 500],
        xml_img ''brightfield'' ''20'' (99000, 100000) (100000, 0)
          [xml_dim 3 1000 1000, xml_dim 4 500 500],
        xml_img ''brightfield'' ''1'' (200000, 100000) (0, 0) [xml_dim 10 200 100]]"

definition slide_two_mains_no_macro :: xml_input where
  "slide_two_mains_no_macro =
     xml_doc (200000, 100000)
       [xml_img ''brightfield'' ''20'' (100000, 100000) (0, 0)
          [xml_dim 1 1000 1000, xml_dim 2 500 500],
        xml_img ''brightfield'' ''20'' (99000, 100000) (100000, 0)
          [xml_dim 3 1000 1000, xml_dim 4 500 500]]"

text \<open>A brightfield main image and a fluorescence main image.\<close>

definition slide_fluorescence :: xml_input where
  "slide_fluorescence =
     xml_doc (200000, 100000)
       [xml_img ''brightfield'' ''20'' (100000, 100000) (0, 0) [xml_dim 1 1000 1000],
        xml_img ''fluorescence'' ''20'' (100000, 100000) (100000, 0) [xml_dim 2 1000 1000]]"

text \<open>
  Three images at offset 0: one of the size of the collection, one narrower, and one of
  the size of the collection at offset 10.
\<close>

definition slide_macro_rule :: xml_input where
  "slide_macro_rule =
     xml_doc (200000, 100000)
       [xml_img ''brightfield'' ''1'' (200000, 100000) (0, 0) [xml_dim 1 200 100],
        xml_img ''brightfield'' ''20'' (100000, 100000) (0, 0) [xml_dim 2 1000 1000],
        xml_img ''brightfield'' ''20'' (200000, 100000) (10, 0) [xml_dim 3 1000 500]]"

text \<open>An image with two dimensions of the same width, listed around a wider one.\<close>

definition slide_ties :: xml_input where
  "slide_ties =
     xml_doc (200000, 100000)
       [xml_img ''brightfield'' ''20'' (100000, 80000) (50000, 10000)
          [xml_dim 1 500 400, xml_dim 2 1000 800, xml_dim 3 500 300]]"

text \<open>
  Three main images; the second has no width and no extent in clicks, so its density is
  \<open>0 / 0\<close>.
\<close>

definition slide_nan :: xml_input where
  "slide_nan =
     xml_doc (300000, 100000)
       [xml_img ''brightfield'' ''20'' (100000, 100000) (0, 0) [xml_dim 1 1000 1000],
        xml_img ''brightfield'' ''20'' (0, 100000) (100000, 0) [xml_dim 2 0 1000],
        xml_img ''brightfield'' ''20'' (101000, 100000) (199000, 0) [xml_dim 3 1000 1000],
        xml_img ''brightfield'' ''1'' (300000, 100000) (0, 0) [xml_dim 10 300 100]]"

text \<open>A main image placed beyond the right edge and above the top of the collection.\<close>

definition slide_offset_outside :: xml_input where
  "slide_offset_outside =
     xml_doc (100000, 80000)
       [xml_img ''brightfield'' ''20'' (50000, 40000) (200000, - 5) [xml_dim 1 500 400]]"

text \<open>
  Three main images: the second has half the density of the first, the third another
  objective.
\<close>

definition slide_preempted :: xml_input where
  "slide_preempted =
     xml_doc (300000, 100000)
       [xml_img ''brightfield'' ''20'' (100000, 100000) (0, 0) [xml_dim 1 1000 1000],
        xml_img ''brightfield'' ''20'' (50000, 100000) (100000, 0) [xml_dim 2 1000 1000],
        xml_img ''brightfield'' ''40'' (100000, 100000) (200000, 0) [xml_dim 3 1000 1000]]"

text \<open>Two main images with different objectives.\<close>

definition slide_dissimilar :: xml_input where
  "slide_dissimilar =
     xml_doc (200000, 100000)
       [xml_img ''brightfield'' ''20'' (100000, 100000) (0, 0) [xml_dim 1 1000 1000],
        xml_img ''brightfield'' ''40'' (100000, 100000) (100000, 0) [xml_dim 2 1000 1000]]"






section \<open>Theorems: file size\<close>

text \<open>
  C10.  When the four calls of the C library made by \<open>_openslide_fsize\<close> (\<open>ftello\<close>,
  \<open>fseeko\<close> to the end, \<open>ftello\<close>, \<open>fseeko\<close> back) all work, the function returns the
  length of the file in bytes, sets no error and leaves the read position where it was
  at entry.  When any of the four fails, it returns \<open>-1\<close> and sets an error.  So every
  result other than \<open>-1\<close> is the length of the file, with the position restored.
\<close>

theorem fsize_returns_length_and_restores_position:
  "openslide_fsize file = (r, err, file') \<Longrightarrow>
     (if calls_work 4 (fp file)
      then r = int (file_length (fp file)) \<and> err = None \<and>
           file_position (fp file') = file_position (fp file) \<and>
           file_length (fp file') = file_length (fp file)
      else r = - 1 \<and> err \<noteq> None)"
  unfolding openslide_fsize_def openslide_ftell_def openslide_fseek_def ftello_def fseeko_def
    next_outcome_def calls_work_def io_error_def
  by (auto split: list.splits option.splits if_splits prod.splits
        simp: Let_def take_Suc_conv_app_nth numeral_eq_Suc)

theorem fsize_returns_length_and_restores_position_witness:
  "fst (openslide_fsize (example_file [])) = 1000 \<and>
   file_position (fp (snd (snd (openslide_fsize (example_file []))))) = 10 \<and>
   fst (openslide_fsize (example_file [None, None, Some 5])) = - 1"
proof -
  have a: "calls_work 4 (fp (example_file []))"
    by (simp add: calls_work_def example_file_def)
  have b: "\<not> calls_work 4 (fp (example_file [None, None, Some 5]))"
    by (simp add: calls_work_def example_file_def)
  have c: "openslide_fsize f = (fst (openslide_fsize f), fst (snd (openslide_fsize f)),
             snd (snd (openslide_fsize f)))" for f
    by simp
  show ?thesis
    using fsize_returns_length_and_restores_position [OF c [of "example_file []"]]
      fsize_returns_length_and_restores_position [OF c [of "example_file [None, None, Some 5]"]]
      a b
    by (simp add: example_file_def)
qed


section \<open>Lemmas: the parser\<close>

lemma parse_dimensions_manifest:
  "parse_dimensions a ns = Inr ds \<Longrightarrow>
     ds = List.map_filter (manifest_dimension a) (filter z_plane_0 ns)"
  by (induction ns arbitrary: ds)
     (auto simp: manifest_dimension_def xml_parse_int_attr_def
           split: if_splits sum.splits option.splits)

lemma insert_sorted_insort:
  "insert_sorted dimension_compare x ys = insort_key (\<lambda>d. - width d) x ys"
  by (induction ys) (auto simp: dimension_compare_def)

lemma g_ptr_array_sort_sort_key:
  "g_ptr_array_sort dimension_compare xs = sort_key (\<lambda>d. - width d) xs"
  by (induction xs) (simp_all add: g_ptr_array_sort_def insert_sorted_insort)

lemma sorted_dimensions:
  "sorted_wrt (\<lambda>a b. width a \<ge> width b) (g_ptr_array_sort dimension_compare xs)"
proof -
  have "sorted (map (\<lambda>d. - width d) (sort_key (\<lambda>d. - width d) xs))"
    by (rule sorted_sort_key)
  then show ?thesis
    by (simp add: g_ptr_array_sort_sort_key sorted_wrt_map sorted_wrt_iff_nth_less)
qed

lemma stable_dimensions:
  "filter (\<lambda>d. width d = wd) (g_ptr_array_sort dimension_compare xs) = filter (\<lambda>d. width d = wd) xs"
proof -
  have "filter (\<lambda>d. - width d = - wd) (sort_key (\<lambda>d. - width d) xs) = filter (\<lambda>d. - width d = - wd) xs"
    by (rule sort_key_stable)
  then show ?thesis by (simp add: g_ptr_array_sort_sort_key)
qed

lemma parse_image_fields:
  "parse_image ca cd n = Inr i \<Longrightarrow>
     (is_macro i \<longleftrightarrow> image.clicks_offset_x i = 0 \<and> image.clicks_offset_y i = 0 \<and>
        image.clicks_across i = ca \<and> image.clicks_down i = cd) \<and>
     dimensions i = g_ptr_array_sort dimension_compare (manifest_dimensions (image.clicks_across i) n)"
  by (auto simp: parse_image_def xml_parse_int_attr_def manifest_dimensions_def
        split: option.splits sum.splits if_splits dest: parse_dimensions_manifest)

lemma parse_images_all2:
  "parse_images ca cd ns = Inr is \<Longrightarrow> list_all2 (\<lambda>n i. parse_image ca cd n = Inr i) ns is"
  by (induction ns arbitrary: "is") (auto split: sum.splits)

lemma parse_collection:
  "parse_xml_description x = Inr c \<Longrightarrow>
     \<exists>cn. x = Document True (Some cn) \<and>
       list_all2 (\<lambda>n i. parse_image (clicks_across c) (clicks_down c) n = Inr i) (xml_images cn) (images c)"
  by (auto simp: parse_xml_description_def xml_parse_int_attr_def 
        split: xml_input.splits option.splits sum.splits if_splits dest: parse_images_all2)

section \<open>Lemmas: the quickhash mode\<close>

lemma unat_succ32: "unat (x :: 32 word) + 1 < 2 ^ 32 \<Longrightarrow> unat (x + 1) = unat x + 1"
  by (simp add: unat_word_ariths)

lemma word32_eq_1: "(x :: 32 word) = 1 \<longleftrightarrow> unat x = 1"
  by (metis unat_1 word_unat_eq_iff)

lemma word32_le_1: "(x :: 32 word) \<le> 1 \<longleftrightarrow> unat x \<le> 1"
  by (simp add: word_le_nat_alt)

lemma legacy_quickhash_loop_counts:
  "length imgs + unat bf < 2 ^ 32 \<Longrightarrow> length imgs + unat m < 2 ^ 32 \<Longrightarrow>
   legacy_quickhash_loop imgs bf m \<longleftrightarrow>
     (\<forall>i \<in> set imgs. \<not> is_macro i \<longrightarrow> brightfield i) \<and>
     unat bf + length (filter (\<lambda>i. \<not> is_macro i) imgs) = 1 \<and>
     unat m + length (filter is_macro imgs) \<le> 1"
proof (induction imgs arbitrary: bf m)
  case Nil
  then show ?case by (simp add: word32_eq_1 word32_le_1)
next
  case (Cons i imgs)
  show ?case
  proof (cases "is_macro i")
    case True
    have u: "unat (m + 1) = unat m + 1" using Cons.prems by (intro unat_succ32) simp
    have "legacy_quickhash_loop (i # imgs) bf m = legacy_quickhash_loop imgs bf (m + 1)"
      using True by simp
    also have "\<dots> \<longleftrightarrow> (\<forall>i \<in> set imgs. \<not> is_macro i \<longrightarrow> brightfield i) \<and>
       unat bf + length (filter (\<lambda>i. \<not> is_macro i) imgs) = 1 \<and>
       unat (m + 1) + length (filter is_macro imgs) \<le> 1"
      using Cons.prems by (intro Cons.IH) (simp_all add: u)
    finally show ?thesis using True by (simp add: u)
  next
    case False
    show ?thesis
    proof (cases "brightfield i")
      case b: True
      have u: "unat (bf + 1) = unat bf + 1" using Cons.prems by (intro unat_succ32) simp
      have "legacy_quickhash_loop (i # imgs) bf m = legacy_quickhash_loop imgs (bf + 1) m"
        using False b by (simp add: brightfield_def)
      also have "\<dots> \<longleftrightarrow> (\<forall>i \<in> set imgs. \<not> is_macro i \<longrightarrow> brightfield i) \<and>
         unat (bf + 1) + length (filter (\<lambda>i. \<not> is_macro i) imgs) = 1 \<and>
         unat m + length (filter is_macro imgs) \<le> 1"
        using Cons.prems by (intro Cons.IH) (simp_all add: u)
      finally show ?thesis using False b by (simp add: u)
    next
      case nb: False
      then show ?thesis using False by (simp add: brightfield_def)
    qed
  qed
qed

section \<open>Lemmas: the loops of the level synthesis\<close>

lemma process_dimension_first:
  "process_dimension tc f i True k d L = (L', r) \<Longrightarrow>
     L' = L @ [zero_level\<lparr>clicks_per_pixel := dimension.clicks_per_pixel d,
                          areas := [fst (new_area tc i d)]\<rparr>] \<and>
     r = snd (new_area tc i d)"
  by (auto simp: process_dimension_def add_area_def Let_def zero_level_def split: prod.splits)

lemma process_dimensions_first:
  "process_dimensions tc f i True k ds L = (L', None) \<Longrightarrow>
     L' = L @ map (\<lambda>d. zero_level\<lparr>clicks_per_pixel := dimension.clicks_per_pixel d,
                                  areas := [fst (new_area tc i d)]\<rparr>) ds \<and>
     (\<forall>d \<in> set ds. snd (new_area tc i d) = None)"
proof (induction ds arbitrary: k L)
  case Nil
  then show ?case by simp
next
  case (Cons d ds)
  obtain L1 r1 where p: "process_dimension tc f i True k d L = (L1, r1)"
    by (cases "process_dimension tc f i True k d L")
  with Cons.prems have r1: "r1 = None" by (auto split: option.splits)
  with Cons.prems p have rest: "process_dimensions tc f i True (Suc k) ds L1 = (L', None)" by simp
  from process_dimension_first [OF p] r1 Cons.IH [OF rest] show ?case by simp
qed

lemma process_dimension_later:
  "process_dimension tc f i False k d L = (L', None) \<Longrightarrow>
     k < length L \<and> k < length (dimensions f) \<and> similar_enough f k d \<and>
     snd (new_area tc i d) = None \<and> L' = L[k := contribute tc i d (L ! k)]"
  by (auto simp: process_dimension_def add_area_def Let_def contribute_def similar_enough_def
        density_def split: prod.splits if_splits)

lemma process_dimensions_later:
  "process_dimensions tc f i False k ds L = (L', None) \<Longrightarrow>
     length L' = length L \<and>
     (ds \<noteq> [] \<longrightarrow> k + length ds \<le> length L \<and> k + length ds \<le> length (dimensions f)) \<and>
     (\<forall>j < length ds. similar_enough f (k + j) (ds ! j) \<and> snd (new_area tc i (ds ! j)) = None) \<and>
     (\<forall>j < length L. L' ! j =
        (if k \<le> j \<and> j < k + length ds then contribute tc i (ds ! (j - k)) (L ! j) else L ! j))"
proof (induction ds arbitrary: k L)
  case Nil
  then show ?case by auto
next
  case (Cons d ds)
  obtain L1 r1 where p: "process_dimension tc f i False k d L = (L1, r1)"
    by (cases "process_dimension tc f i False k d L")
  with Cons.prems have r1: "r1 = None" by (auto split: option.splits)
  with Cons.prems p have rest: "process_dimensions tc f i False (Suc k) ds L1 = (L', None)" by simp
  note a = process_dimension_later [OF p [unfolded r1]]
  note b = Cons.IH [OF rest]
  have len: "length L' = length L" using a b by simp
  have bounds: "k + length (d # ds) \<le> length L \<and> k + length (d # ds) \<le> length (dimensions f)"
    using a b by (cases ds) auto
  have sim: "\<forall>j < length (d # ds). similar_enough f (k + j) ((d # ds) ! j) \<and>
               snd (new_area tc i ((d # ds) ! j)) = None"
  proof (intro allI impI)
    fix j assume "j < length (d # ds)"
    then show "similar_enough f (k + j) ((d # ds) ! j) \<and> snd (new_area tc i ((d # ds) ! j)) = None"
      using a b by (cases j) auto
  qed
  have nth: "\<forall>j < length L. L' ! j =
        (if k \<le> j \<and> j < k + length (d # ds) then contribute tc i ((d # ds) ! (j - k)) (L ! j) else L ! j)"
  proof (intro allI impI)
    fix j assume j: "j < length L"
    show "L' ! j =
        (if k \<le> j \<and> j < k + length (d # ds) then contribute tc i ((d # ds) ! (j - k)) (L ! j) else L ! j)"
    proof (cases "j = k")
      case True
      then show ?thesis using a b j by simp
    next
      case False
      then show ?thesis using a b j by (auto simp: Suc_diff_le nth_Cons')
    qed
  qed
  from len bounds sim nth show ?case by blast
qed


lemma skip_image: "\<not> main_image i \<Longrightarrow> process_main_image tc lq i st = (st, None)"
  by (auto simp: process_main_image_def main_image_def)

lemma process_main_image_first:
  "main_image i \<Longrightarrow> first_main_image st = None \<Longrightarrow>
   process_main_image tc lq i st =
     (case objective i of
        None \<Rightarrow> (st\<lparr>first_main_image := Some i\<rparr>, Some Undefined_Behaviour)
      | Some ob \<Rightarrow>
          (case process_dimensions tc i i True 0 (dimensions i) (levels st) of
             (L, Some e) \<Rightarrow> (st\<lparr>first_main_image := Some i, levels := L\<rparr>, Some e)
           | (L, None) \<Rightarrow>
               if lq then
                 if dimensions i = []
                 then (st\<lparr>first_main_image := Some i, levels := L\<rparr>, Some Undefined_Behaviour)
                 else (st\<lparr>first_main_image := Some i, levels := L,
                           quickhash_dir := dimension.dir (last (dimensions i))\<rparr>, None)
               else (st\<lparr>first_main_image := Some i, levels := L\<rparr>, None)))"
  unfolding process_main_image_def main_image_def Let_def
  by (simp split: option.split prod.split)


lemma keep_first: "first_main_image st = Some f \<Longrightarrow> st\<lparr>first_main_image := Some f\<rparr> = st"
  by (cases st) simp

lemma process_main_image_later:
  "main_image i \<Longrightarrow> first_main_image st = Some f \<Longrightarrow>
   process_main_image tc lq i st =
     (if illumination_source i \<noteq> illumination_source f then (st, Some dissimilar)
      else
        case (objective i, objective f) of
          (Some a, Some b) \<Rightarrow>
            if a \<noteq> b \<or> length (dimensions i) \<noteq> length (dimensions f)
            then (st, Some dissimilar)
            else
              (case process_dimensions tc f i False 0 (dimensions i) (levels st) of
                 (L, Some e) \<Rightarrow> (st\<lparr>levels := L\<rparr>, Some e)
               | (L, None) \<Rightarrow> (st\<lparr>levels := L\<rparr>, None))
        | _ \<Rightarrow> (st, Some Undefined_Behaviour))"
  unfolding process_main_image_def main_image_def Let_def dissimilar_def
  by (simp add: keep_first split: option.split prod.split)

lemma first_image_step:
  assumes m: "main_image i" and p: "process_main_image tc lq i initial_state = (st', None)"
  shows "main_inv tc lq i [] st'"
proof -
  have i0: "first_main_image initial_state = None" "levels initial_state = []"
    "quickhash_dir initial_state = - 1"
    by (simp_all add: initial_state_def)
  note eq = p [unfolded process_main_image_first [OF m i0(1)] i0(2)]
  obtain ob where ob: "objective i = Some ob"
    using eq by (cases "objective i") auto
  obtain L r where pd: "process_dimensions tc i i True 0 (dimensions i) [] = (L, r)"
    by (cases "process_dimensions tc i i True 0 (dimensions i) []")
  have r: "r = None"
    using eq ob pd by (cases r) (auto split: if_splits)
  note fd = process_dimensions_first [OF pd [unfolded r]]
  have L: "L = map (main_level tc i []) [0..<length (dimensions i)]"
  proof (rule nth_equalityI)
    show "length L = length (map (main_level tc i []) [0..<length (dimensions i)])"
      using fd by simp
    fix k assume "k < length L"
    then show "L ! k = map (main_level tc i []) [0..<length (dimensions i)] ! k"
      using fd by (simp add: main_level_def zero_level_def density_def)
  qed
  have st': "first_main_image st' = Some i \<and> levels st' = L \<and>
             quickhash_dir st' = (if lq then dimension.dir (last (dimensions i)) else - 1) \<and>
             (lq \<longrightarrow> dimensions i \<noteq> [])"
    using eq ob pd r i0(3) by (auto split: if_splits)
  show ?thesis
    unfolding main_inv_def using st' L ob m fd by simp
qed

lemma main_level_snoc:
  "k < length (dimensions i) \<Longrightarrow>
   contribute tc i (dimensions i ! k) (main_level tc f ps k) = main_level tc f (ps @ [i]) k"
  by (simp add: contribute_def main_level_def density_def)

lemma later_image_step:
  assumes inv: "main_inv tc lq f ps st" and m: "main_image i"
    and p: "process_main_image tc lq i st = (st', None)"
  shows "main_inv tc lq f (ps @ [i]) st'"
proof -
  from inv have fst: "first_main_image st = Some f" and obf: "objective f \<noteq> None"
    and lv: "levels st = map (main_level tc f ps) [0..<length (dimensions f)]"
    by (auto simp: main_inv_def)
  note eq = p [unfolded process_main_image_later [OF m fst]]
  have same: "objective i = objective f \<and> length (dimensions i) = length (dimensions f)"
    using eq obf by (auto split: if_splits option.splits)
  obtain L r where pd: "process_dimensions tc f i False 0 (dimensions i) (levels st) = (L, r)"
    by (cases "process_dimensions tc f i False 0 (dimensions i) (levels st)")
  have r: "r = None"
    using eq pd by (cases r) (auto split: if_splits option.splits)
  have st': "first_main_image st' = Some f \<and> levels st' = L \<and> quickhash_dir st' = quickhash_dir st"
    using eq pd r fst by (auto split: if_splits option.splits)
  note ld = process_dimensions_later [OF pd [unfolded r]]
  have L: "L = map (main_level tc f (ps @ [i])) [0..<length (dimensions f)]"
  proof (rule nth_equalityI)
    show "length L = length (map (main_level tc f (ps @ [i])) [0..<length (dimensions f)])"
      using ld lv by simp
    fix k assume "k < length L"
    then show "L ! k = map (main_level tc f (ps @ [i])) [0..<length (dimensions f)] ! k"
      using ld lv same by (simp add: main_level_snoc)
  qed
  have new: "\<forall>d \<in> set (dimensions i). snd (new_area tc i d) = None"
    using ld by (auto simp: in_set_conv_nth)
  have sim: "\<forall>k < length (dimensions i). similar_enough f k (dimensions i ! k)"
    using ld by auto
  show ?thesis
    using inv st' L same m new sim unfolding main_inv_def by auto
qed


lemma main_loop_later:
  "process_main_images tc lq imgs st = (st', None) \<Longrightarrow> main_inv tc lq f ps st \<Longrightarrow>
     main_inv tc lq f (ps @ filter main_image imgs) st'"
proof (induction imgs arbitrary: st ps)
  case Nil
  then show ?case by simp
next
  case (Cons i imgs)
  obtain st1 r1 where p: "process_main_image tc lq i st = (st1, r1)"
    by (cases "process_main_image tc lq i st")
  with Cons.prems have r1: "r1 = None" by (auto split: option.splits)
  with Cons.prems p have rest: "process_main_images tc lq imgs st1 = (st', None)" by simp
  show ?case
  proof (cases "main_image i")
    case True
    from later_image_step [OF Cons.prems(2) True p [unfolded r1]]
    have "main_inv tc lq f (ps @ [i]) st1" .
    from Cons.IH [OF rest this] True show ?thesis by simp
  next
    case False
    with p skip_image have "st1 = st" by simp
    with Cons.IH [OF rest] Cons.prems(2) False show ?thesis by simp
  qed
qed

lemma main_loop_initial:
  "process_main_images tc lq imgs initial_state = (st', None) \<Longrightarrow>
     (case filter main_image imgs of
        [] \<Rightarrow> st' = initial_state
      | f # ps \<Rightarrow> main_inv tc lq f ps st')"
proof (induction imgs)
  case Nil
  then show ?case by simp
next
  case (Cons i imgs)
  obtain st1 r1 where p: "process_main_image tc lq i initial_state = (st1, r1)"
    by (cases "process_main_image tc lq i initial_state")
  with Cons.prems have r1: "r1 = None" by (auto split: option.splits)
  with Cons.prems p have rest: "process_main_images tc lq imgs st1 = (st', None)" by simp
  show ?case
  proof (cases "main_image i")
    case True
    from first_image_step [OF True p [unfolded r1]] have "main_inv tc lq i [] st1" .
    from main_loop_later [OF rest this] True show ?thesis by simp
  next
    case False
    with p skip_image have "st1 = initial_state" by simp
    with Cons.IH rest False show ?thesis by simp
  qed
qed

lemma set_level_sizes_sized:
  "set_level_sizes c ls = (ls', None) \<Longrightarrow> list_all2 (sized c) ls ls'"
proof (induction ls arbitrary: ls')
  case Nil
  then show ?case by simp
next
  case (Cons l ls)
  then show ?case
    by (auto simp: sized_def split: option.splits prod.splits)
qed

lemma process_macro_image_cases:
  "process_macro_image tc lq i m0 = (m1, None) \<Longrightarrow>
     (\<not> (is_macro i \<and> brightfield i) \<and> m1 = m0) \<or>
     (is_macro i \<and> brightfield i \<and> \<not> have_macro_image m0 \<and> dimensions i \<noteq> [] \<and>
      have_macro_image m1 \<and>
      macro_quickhash_dir m1 =
        (if lq then macro_quickhash_dir m0 else dimension.dir (last (dimensions i))))"
  by (auto simp: process_macro_image_def split: if_splits option.splits)

lemma macro_loop:
  "process_macro_images tc lq imgs m0 = (m, None) \<Longrightarrow>
     (filter (\<lambda>i. is_macro i \<and> brightfield i) imgs = [] \<and> m = m0) \<or>
     (\<not> have_macro_image m0 \<and>
      (\<exists>x. filter (\<lambda>i. is_macro i \<and> brightfield i) imgs = [x] \<and> dimensions x \<noteq> [] \<and>
           macro_quickhash_dir m =
             (if lq then macro_quickhash_dir m0 else dimension.dir (last (dimensions x)))))"
proof (induction imgs arbitrary: m0)
  case Nil
  then show ?case by simp
next
  case (Cons i imgs)
  obtain m1 r1 where p: "process_macro_image tc lq i m0 = (m1, r1)"
    by (cases "process_macro_image tc lq i m0")
  with Cons.prems have r1: "r1 = None" by (auto split: option.splits)
  with Cons.prems p have rest: "process_macro_images tc lq imgs m1 = (m, None)" by simp
  from process_macro_image_cases [OF p [unfolded r1]] Cons.IH [OF rest]
  show ?case by auto
qed

lemma create_levels_success:
  assumes "create_levels_from_collection tc c [] = (lv, q, None)"
  shows "\<exists>f ps st m.
           surviving c = f # ps \<and>
           main_inv tc (should_use_legacy_quickhash c) f ps st \<and>
           list_all2 (sized c) (levels st) lv \<and>
           process_macro_images tc (should_use_legacy_quickhash c) (images c)
             \<lparr>have_macro_image = False, macro_quickhash_dir = quickhash_dir st\<rparr> = (m, None) \<and>
           q = macro_quickhash_dir m \<and> q \<noteq> - 1"
proof -
  let ?lq = "should_use_legacy_quickhash c"
  obtain st r where p: "process_main_images tc ?lq (images c) initial_state = (st, r)"
    by (cases "process_main_images tc ?lq (images c) initial_state")
  note eq = assms [unfolded create_levels_from_collection_def Let_def, folded initial_state_def,
      unfolded p]
  have r: "r = None" using eq by (cases r) auto
  have fm: "first_main_image st \<noteq> None" using eq r by (auto split: if_splits)
  obtain ls r2 where s: "set_level_sizes c (levels st) = (ls, r2)"
    by (cases "set_level_sizes c (levels st)")
  have r2: "r2 = None" using eq r fm s by (cases r2) auto
  obtain m r3 where mc: "process_macro_images tc ?lq (images c)
             \<lparr>have_macro_image = False, macro_quickhash_dir = quickhash_dir st\<rparr> = (m, r3)"
    by (cases "process_macro_images tc ?lq (images c)
             \<lparr>have_macro_image = False, macro_quickhash_dir = quickhash_dir st\<rparr>")
  have r3: "r3 = None" using eq r fm s r2 mc by (cases r3) auto
  have fin: "lv = ls \<and> q = macro_quickhash_dir m \<and> q \<noteq> - 1"
    using eq r fm s r2 mc r3 by (auto split: if_splits)
  from main_loop_initial [OF p [unfolded r]] fm
  obtain f ps where sv: "surviving c = f # ps" and inv: "main_inv tc ?lq f ps st"
    by (auto simp: surviving_def initial_state_def split: list.splits)
  from set_level_sizes_sized [OF s [unfolded r2]] fin mc r3 sv inv show ?thesis by blast
qed


section \<open>Lemmas: the comparison of doubles\<close>








section \<open>Lemmas: a successful synthesis\<close>

lemma new_area_offsets:
  "snd (new_area tc i d) = None \<Longrightarrow>
     clicks_offset_x (fst (new_area tc i d)) = image.clicks_offset_x i \<and>
     clicks_offset_y (fst (new_area tc i d)) = image.clicks_offset_y i"
  by (auto simp: new_area_def Let_def split: sum.splits option.splits if_splits)

lemma success_level:
  assumes s: "create_levels_from_collection tc c [] = (lv, q, None)" and k: "k < length lv"
  shows "\<exists>f ps. surviving c = f # ps \<and> length lv = length (dimensions f) \<and>
           (\<forall>i \<in> set (f # ps). length (dimensions i) = length (dimensions f) \<and>
              (\<forall>d \<in> set (dimensions i). snd (new_area tc i d) = None)) \<and>
           sized c (main_level tc f ps k) (lv ! k)"
proof -
  from create_levels_success [OF s] obtain f ps st where
    sv: "surviving c = f # ps" and inv: "main_inv tc (should_use_legacy_quickhash c) f ps st"
    and sz: "list_all2 (sized c) (levels st) lv"
    by blast
  from inv have lv: "levels st = map (main_level tc f ps) [0..<length (dimensions f)]"
    by (simp add: main_inv_def)
  from sz lv have len: "length lv = length (dimensions f)"
    by (auto dest: list_all2_lengthD)
  from sz k have "sized c (levels st ! k) (lv ! k)"
    by (simp add: list_all2_conv_all_nth)
  with lv k len have z: "sized c (main_level tc f ps k) (lv ! k)" by simp
  from inv have a: "\<forall>i \<in> set (f # ps). length (dimensions i) = length (dimensions f) \<and>
              (\<forall>d \<in> set (dimensions i). snd (new_area tc i d) = None)"
    unfolding main_inv_def by blast
  from sv len a z show ?thesis by blast
qed

lemma process_main_images_append:
  "process_main_images tc lq (xs @ ys) st =
     (case process_main_images tc lq xs st of
        (st1, Some e) \<Rightarrow> (st1, Some e)
      | (st1, None) \<Rightarrow> process_main_images tc lq ys st1)"
  by (induction xs arbitrary: st) (auto split: prod.splits option.splits)

lemma no_macro_loop:
  "filter (\<lambda>i. is_macro i \<and> brightfield i) imgs = [] \<Longrightarrow>
     process_macro_images tc lq imgs m0 = (m0, None)"
  by (induction imgs) (auto simp: process_macro_image_def split: if_splits)

lemma descending_last:
  "sorted_wrt (\<lambda>a b. width a \<ge> width b) ds \<Longrightarrow> d \<in> set ds \<Longrightarrow> width (last ds) \<le> width d"
  by (induction ds) (auto split: if_splits)

lemma parsed_image_sorted:
  assumes "parse_xml_description x = Inr c" and "i \<in> set (images c)"
  shows "sorted_wrt (\<lambda>a b. width a \<ge> width b) (dimensions i)"
proof -
  from parse_collection [OF assms(1)] obtain cn :: xml_collection where
    l: "list_all2 (\<lambda>n i. parse_image (clicks_across c) (clicks_down c) n = Inr i)
          (xml_images cn) (images c)"
    by blast
  from assms(2) l obtain n where "parse_image (clicks_across c) (clicks_down c) n = Inr i"
    by (auto simp: list_all2_conv_all_nth in_set_conv_nth)
  from parse_image_fields [OF this] show ?thesis by (simp add: sorted_dimensions)
qed

lemma parsed_smallest:
  assumes "parse_xml_description x = Inr c" and "i \<in> set (images c)"
    and "dimensions i \<noteq> []"
  shows "smallest_dimension_dir i (dimension.dir (last (dimensions i)))"
  using parsed_image_sorted [OF assms(1,2)] assms(3)
  by (auto simp: smallest_dimension_dir_def dest: descending_last)

lemma brightfield_same_source:
  "main_image a \<Longrightarrow> main_image b \<Longrightarrow> illumination_source a = illumination_source b"
  by (simp add: main_image_def brightfield_def)


section \<open>Lemmas: a failed resolution check\<close>



section \<open>Lemmas: painting\<close>








section \<open>The examples, evaluated\<close>

lemmas model_defs =
  parsed_def synthesized_def manifest_images_def
  xml_doc_def xml_img_def xml_dim_def tiff_ok_def
  parse_xml_description_def parse_image_def xml_parse_int_attr_def z_plane_0_def
  g_ptr_array_sort_def dimension_compare_def double_div_def double_of_int64_def is_zero_def
  create_levels_from_collection_def should_use_legacy_quickhash_def LEICA_VALUE_BRIGHTFIELD_def
  brightfield_def process_main_image_def process_dimension_def new_area_def add_area_def
  zero_area_def zero_level_def MIN_double_def double_less_def resolution_similarity_def
  double_sub_def level_size_def int64_of_double_def process_macro_image_def signed_zero_def
  signed_inf_def Let_def surviving_def brightfield_macros_def main_image_def density_def

lemma parse_slide_one_main:
  "parse_xml_description slide_one_main = Inr (parsed slide_one_main)"
  by (simp add: slide_one_main_def model_defs)

lemma parse_slide_main_macro:
  "parse_xml_description slide_main_macro = Inr (parsed slide_main_macro)"
  by (simp add: slide_main_macro_def model_defs)

lemma parse_slide_two_mains:
  "parse_xml_description slide_two_mains = Inr (parsed slide_two_mains)"
  by (simp add: slide_two_mains_def model_defs)

lemma parse_slide_two_mains_no_macro:
  "parse_xml_description slide_two_mains_no_macro = Inr (parsed slide_two_mains_no_macro)"
  by (simp add: slide_two_mains_no_macro_def model_defs)

lemma parse_slide_macro_rule:
  "parse_xml_description slide_macro_rule = Inr (parsed slide_macro_rule)"
  by (simp add: slide_macro_rule_def model_defs)

lemma parse_slide_ties:
  "parse_xml_description slide_ties = Inr (parsed slide_ties)"
  by (simp add: slide_ties_def model_defs)

lemma parse_slide_nan:
  "parse_xml_description slide_nan = Inr (parsed slide_nan)"
  by (simp add: slide_nan_def model_defs)

lemma parse_slide_offset_outside:
  "parse_xml_description slide_offset_outside = Inr (parsed slide_offset_outside)"
  by (simp add: slide_offset_outside_def model_defs)

lemma parse_slide_preempted:
  "parse_xml_description slide_preempted = Inr (parsed slide_preempted)"
  by (simp add: slide_preempted_def model_defs)

lemma parse_slide_dissimilar:
  "parse_xml_description slide_dissimilar = Inr (parsed slide_dissimilar)"
  by (simp add: slide_dissimilar_def model_defs)

lemma synth_slide_one_main:
  "create_levels_from_collection tiff_ok (parsed slide_one_main) [] =
     (synthesized slide_one_main, 2, None)"
  by (simp add: slide_one_main_def model_defs)

lemma synth_slide_main_macro:
  "create_levels_from_collection tiff_ok (parsed slide_main_macro) [] =
     (synthesized slide_main_macro, 2, None)"
  by (simp add: slide_main_macro_def model_defs)

lemma synth_slide_two_mains:
  "create_levels_from_collection tiff_ok (parsed slide_two_mains) [] =
     (synthesized slide_two_mains, 10, None)"
  by (simp add: slide_two_mains_def model_defs)

lemma synth_slide_two_mains_no_macro:
  "create_levels_from_collection tiff_ok (parsed slide_two_mains_no_macro) [] =
     (synthesized slide_two_mains_no_macro, - 1, Some no_quickhash_dir)"
  by (simp add: slide_two_mains_no_macro_def no_quickhash_dir_def model_defs)

lemma synth_slide_nan:
  "create_levels_from_collection tiff_ok (parsed slide_nan) [] =
     (synthesized slide_nan, 10, None)"
  by (simp add: slide_nan_def model_defs)

lemma synth_slide_offset_outside:
  "create_levels_from_collection tiff_ok (parsed slide_offset_outside) [] =
     (synthesized slide_offset_outside, 1, None)"
  by (simp add: slide_offset_outside_def model_defs)

lemma synth_slide_preempted:
  "create_levels_from_collection tiff_ok (parsed slide_preempted) [] =
     (synthesized slide_preempted, - 1, Some inconsistent_resolutions)"
  by (simp add: slide_preempted_def inconsistent_resolutions_def model_defs)

lemma synth_slide_dissimilar:
  "create_levels_from_collection tiff_ok (parsed slide_dissimilar) [] =
     (synthesized slide_dissimilar, - 1, Some dissimilar)"
  by (simp add: slide_dissimilar_def dissimilar_def model_defs)

section \<open>Theorems: the parser\<close>

text \<open>
  C8.  In a collection that \<open>parse_xml_description\<close> returns, an image is marked as the
  macro image exactly when both its offsets are 0 and its size in clicks, across and
  down, is the size of the collection; a different size or an offset other than 0 makes
  the mark false.
\<close>

theorem parsed_is_macro_iff:
  "parse_xml_description x = Inr c \<Longrightarrow> i \<in> set (images c) \<Longrightarrow> is_macro i \<longleftrightarrow> macro_rule c i"
proof -
  assume a: "parse_xml_description x = Inr c" and b: "i \<in> set (images c)"
  from parse_collection [OF a] obtain cn :: xml_collection where
    l: "list_all2 (\<lambda>n i. parse_image (clicks_across c) (clicks_down c) n = Inr i)
          (xml_images cn) (images c)"
    by blast
  from b l obtain n where "parse_image (clicks_across c) (clicks_down c) n = Inr i"
    by (auto simp: list_all2_conv_all_nth in_set_conv_nth)
  then show ?thesis
    using parse_image_fields unfolding macro_rule_def by blast
qed

theorem parsed_is_macro_iff_witness:
  "is_macro (images (parsed slide_macro_rule) ! 0) \<and>
   \<not> is_macro (images (parsed slide_macro_rule) ! 1) \<and>
   \<not> is_macro (images (parsed slide_macro_rule) ! 2)"
proof -
  have m: "images (parsed slide_macro_rule) ! k \<in> set (images (parsed slide_macro_rule))"
    if "k < 3" for k
    using that by (intro nth_mem) (simp add: slide_macro_rule_def model_defs)
  have r: "macro_rule (parsed slide_macro_rule) (images (parsed slide_macro_rule) ! 0) \<and>
        \<not> macro_rule (parsed slide_macro_rule) (images (parsed slide_macro_rule) ! 1) \<and>
        \<not> macro_rule (parsed slide_macro_rule) (images (parsed slide_macro_rule) ! 2)"
    by (simp add: macro_rule_def slide_macro_rule_def model_defs)
  from r parsed_is_macro_iff [OF parse_slide_macro_rule m [of 0]]
    parsed_is_macro_iff [OF parse_slide_macro_rule m [of 1]]
    parsed_is_macro_iff [OF parse_slide_macro_rule m [of 2]]
  show ?thesis by simp
qed

text \<open>
  C7, as the code has it.  In a collection that \<open>parse_xml_description\<close> returns, the
  dimensions of every image are in order of width, widest first, and never growing
  (dimensions of equal width stay next to each other, so the order is strict only when
  all widths differ); the dimensions of any one width are in the order in which the
  manifest lists them.  The order among equal widths is the one GLib documents for
  \<open>g_ptr_array_sort\<close>.
\<close>

theorem parsed_dimensions_sorted_stable:
  "parse_xml_description x = Inr c \<Longrightarrow>
     list_all2
       (\<lambda>n i. descending (dimensions i) \<and>
          (\<forall>wd. filter (\<lambda>d. width d = wd) (dimensions i) =
                filter (\<lambda>d. width d = wd) (manifest_dimensions (image.clicks_across i) n)))
       (manifest_images x) (images c)"
proof -
  assume a: "parse_xml_description x = Inr c"
  from parse_collection [OF a] obtain cn :: xml_collection where
    x: "x = Document True (Some cn)" and
    l: "list_all2 (\<lambda>n i. parse_image (clicks_across c) (clicks_down c) n = Inr i)
          (xml_images cn) (images c)"
    by blast
  have "list_all2
       (\<lambda>n i. descending (dimensions i) \<and>
          (\<forall>wd. filter (\<lambda>d. width d = wd) (dimensions i) =
                filter (\<lambda>d. width d = wd) (manifest_dimensions (image.clicks_across i) n)))
       (xml_images cn) (images c)"
    by (rule list_all2_mono [OF l])
       (auto dest!: parse_image_fields simp: descending_def sorted_dimensions stable_dimensions)
  then show ?thesis by (simp add: x manifest_images_def)
qed

theorem parsed_dimensions_sorted_stable_witness:
  "list_all2
     (\<lambda>n i. descending (dimensions i) \<and>
        (\<forall>wd. filter (\<lambda>d. width d = wd) (dimensions i) =
              filter (\<lambda>d. width d = wd) (manifest_dimensions (image.clicks_across i) n)))
     (manifest_images slide_ties) (images (parsed slide_ties)) \<and>
   map dimension.dir (dimensions (hd (images (parsed slide_ties)))) = [2, 1, 3]"
proof -
  have "map dimension.dir (dimensions (hd (images (parsed slide_ties)))) = [2, 1, 3]"
    by (simp add: slide_ties_def model_defs)
  with parsed_dimensions_sorted_stable [OF parse_slide_ties] show ?thesis by simp
qed

theorem strictly_descending_counterexample:
  "parse_xml_description slide_ties = Inr (parsed slide_ties) \<and>
   map width (dimensions (hd (images (parsed slide_ties)))) = [1000, 500, 500] \<and>
   \<not> strictly_descending (dimensions (hd (images (parsed slide_ties))))"
  by (simp add: slide_ties_def strictly_descending_def model_defs)

section \<open>Theorems: the quickhash mode\<close>

text \<open>
  C1.  \<open>should_use_legacy_quickhash\<close> is true exactly when the collection has one main
  image that is brightfield, at most one macro image, and no main image that is not
  brightfield (one whose illumination source is missing or is another string).  The
  array of images has a 32-bit length, so the two 32-bit counters cannot wrap.  The four
  boundary cases: one brightfield main image alone, or with one brightfield macro image,
  gives true; two brightfield main images, or a brightfield main image with a main image
  that is not brightfield, give false.
\<close>

theorem legacy_quickhash_iff:
  "(length (images c) < 2 ^ 32 \<longrightarrow>
      (should_use_legacy_quickhash c \<longleftrightarrow>
         length (surviving c) = 1 \<and>
         length (filter is_macro (images c)) \<le> 1 \<and>
         (\<forall>i \<in> set (images c). \<not> is_macro i \<longrightarrow> brightfield i))) \<and>
   (main_image m1 \<and> main_image m2 \<and> is_macro mac \<and> brightfield mac \<and>
    \<not> is_macro nb \<and> \<not> brightfield nb \<longrightarrow>
      should_use_legacy_quickhash (c\<lparr>images := [m1]\<rparr>) \<and>
      should_use_legacy_quickhash (c\<lparr>images := [m1, mac]\<rparr>) \<and>
      \<not> should_use_legacy_quickhash (c\<lparr>images := [m1, m2]\<rparr>) \<and>
      \<not> should_use_legacy_quickhash (c\<lparr>images := [m1, nb]\<rparr>))"
proof -
  have main: "should_use_legacy_quickhash c \<longleftrightarrow>
         length (surviving c) = 1 \<and>
         length (filter is_macro (images c)) \<le> 1 \<and>
         (\<forall>i \<in> set (images c). \<not> is_macro i \<longrightarrow> brightfield i)"
    if len: "length (images c) < 2 ^ 32"
  proof -
    have f: "filter (\<lambda>i. \<not> is_macro i) (images c) = filter main_image (images c)"
      if "\<forall>i \<in> set (images c). \<not> is_macro i \<longrightarrow> brightfield i"
      using that by (intro filter_cong) (auto simp: main_image_def)
    have "should_use_legacy_quickhash c \<longleftrightarrow>
        (\<forall>i \<in> set (images c). \<not> is_macro i \<longrightarrow> brightfield i) \<and>
        length (filter (\<lambda>i. \<not> is_macro i) (images c)) = 1 \<and>
        length (filter is_macro (images c)) \<le> 1"
      unfolding should_use_legacy_quickhash_def
      using legacy_quickhash_loop_counts [of "images c" 0 0] len by simp
    then show ?thesis using f by (auto simp: surviving_def)
  qed
  have cases: "should_use_legacy_quickhash (c\<lparr>images := [m1]\<rparr>) \<and>
      should_use_legacy_quickhash (c\<lparr>images := [m1, mac]\<rparr>) \<and>
      \<not> should_use_legacy_quickhash (c\<lparr>images := [m1, m2]\<rparr>) \<and>
      \<not> should_use_legacy_quickhash (c\<lparr>images := [m1, nb]\<rparr>)"
    if "main_image m1 \<and> main_image m2 \<and> is_macro mac \<and> brightfield mac \<and>
        \<not> is_macro nb \<and> \<not> brightfield nb"
    using that by (simp add: should_use_legacy_quickhash_def main_image_def brightfield_def)
  from main cases show ?thesis by blast
qed

theorem legacy_quickhash_iff_witness:
  "should_use_legacy_quickhash (parsed slide_one_main) \<and>
   should_use_legacy_quickhash (parsed slide_main_macro) \<and>
   \<not> should_use_legacy_quickhash (parsed slide_two_mains_no_macro) \<and>
   \<not> should_use_legacy_quickhash (parsed slide_fluorescence) \<and>
   should_use_legacy_quickhash
     ((parsed slide_fluorescence)\<lparr>images :=
        [images (parsed slide_fluorescence) ! 0, images (parsed slide_main_macro) ! 1]\<rparr>)"
proof -
  note t = legacy_quickhash_iff [THEN conjunct1, rule_format]
  have 1: "should_use_legacy_quickhash (parsed slide_one_main)"
    by (subst t) (simp_all add: slide_one_main_def model_defs)
  have 2: "should_use_legacy_quickhash (parsed slide_main_macro)"
    by (subst t) (simp_all add: slide_main_macro_def model_defs)
  have 3: "\<not> should_use_legacy_quickhash (parsed slide_two_mains_no_macro)"
    by (subst t) (simp_all add: slide_two_mains_no_macro_def model_defs)
  have 4: "\<not> should_use_legacy_quickhash (parsed slide_fluorescence)"
    by (subst t) (simp_all add: slide_fluorescence_def model_defs)
  have h: "main_image (images (parsed slide_fluorescence) ! 0) \<and>
           main_image (images (parsed slide_fluorescence) ! 0) \<and>
           is_macro (images (parsed slide_main_macro) ! 1) \<and>
           brightfield (images (parsed slide_main_macro) ! 1) \<and>
           \<not> is_macro (images (parsed slide_fluorescence) ! 1) \<and>
           \<not> brightfield (images (parsed slide_fluorescence) ! 1)"
    by (simp add: slide_fluorescence_def slide_main_macro_def model_defs)
  from legacy_quickhash_iff [THEN conjunct2, rule_format, OF h, of "parsed slide_fluorescence"]
  have 5: "should_use_legacy_quickhash
     ((parsed slide_fluorescence)\<lparr>images :=
        [images (parsed slide_fluorescence) ! 0, images (parsed slide_main_macro) ! 1]\<rparr>)"
    by blast
  from 1 2 3 4 5 show ?thesis by blast
qed

section \<open>Theorems: the level synthesis\<close>

text \<open>
  C2.  For a collection that the parser returned, when \<open>create_levels_from_collection\<close>
  succeeds on an empty level array, \<open>*quickhash_dir\<close> is not \<open>-1\<close>; in legacy mode it is
  the directory of the last dimension of the first surviving main image, in the other
  mode the directory of the last dimension of the one brightfield macro image, and in
  both cases no dimension of that image is narrower than the last.  When the mode is
  not the legacy one and there is no brightfield macro image, the function does not
  succeed, and if the main images and the level sizes pass it fails with
  \<open>BAD_DATA\<close>, "Couldn't locate TIFF directory for quickhash", with \<open>*quickhash_dir\<close>
  still \<open>-1\<close>.
\<close>

theorem quickhash_dir_rule:
  assumes p: "parse_xml_description x = Inr c"
    and s: "create_levels_from_collection tc c [] = (lv, q, r)"
  shows "(r = None \<longrightarrow>
            q \<noteq> - 1 \<and>
            (if should_use_legacy_quickhash c
             then surviving c \<noteq> [] \<and> smallest_dimension_dir (hd (surviving c)) q
             else (\<exists>m. brightfield_macros c = [m] \<and> smallest_dimension_dir m q))) \<and>
         (\<not> should_use_legacy_quickhash c \<and> brightfield_macros c = [] \<longrightarrow>
            r \<noteq> None \<and> (main_phase_passes tc c \<longrightarrow> q = - 1 \<and> r = Some no_quickhash_dir))"
proof -
  let ?lq = "should_use_legacy_quickhash c"
  have ok: "q \<noteq> - 1 \<and>
            (if ?lq then surviving c \<noteq> [] \<and> smallest_dimension_dir (hd (surviving c)) q
             else (\<exists>m. brightfield_macros c = [m] \<and> smallest_dimension_dir m q))"
    if r: "r = None"
  proof -
    from create_levels_success [OF s [unfolded r]] obtain f ps st m where
      sv: "surviving c = f # ps" and inv: "main_inv tc ?lq f ps st"
      and mc: "process_macro_images tc ?lq (images c)
             \<lparr>have_macro_image = False, macro_quickhash_dir = quickhash_dir st\<rparr> = (m, None)"
      and q: "q = macro_quickhash_dir m" and q1: "q \<noteq> - 1"
      by blast
    have "f \<in> set (filter main_image (images c))"
      using sv by (simp add: surviving_def)
    then have fin: "f \<in> set (images c)" by simp
    show ?thesis
    proof (cases ?lq)
      case True
      with inv have qs: "quickhash_dir st = dimension.dir (last (dimensions f))"
        and ne: "dimensions f \<noteq> []"
        by (simp_all add: main_inv_def)
      from macro_loop [OF mc] True have "macro_quickhash_dir m = quickhash_dir st" by auto
      with q qs parsed_smallest [OF p fin ne] True sv q1 show ?thesis by simp
    next
      case False
      with inv have qs: "quickhash_dir st = - 1" by (simp add: main_inv_def)
      from macro_loop [OF mc] False q q1 qs obtain m' where
        bm: "brightfield_macros c = [m']" and ne: "dimensions m' \<noteq> []"
        and qm: "q = dimension.dir (last (dimensions m'))"
        by (auto simp: brightfield_macros_def)
      have "m' \<in> set (filter (\<lambda>i. is_macro i \<and> brightfield i) (images c))"
        using bm by (simp add: brightfield_macros_def)
      then have "m' \<in> set (images c)" by simp
      from parsed_smallest [OF p this ne] qm bm False q1 show ?thesis by auto
    qed
  qed
  have bad: "r \<noteq> None \<and> (main_phase_passes tc c \<longrightarrow> q = - 1 \<and> r = Some no_quickhash_dir)"
    if nl: "\<not> ?lq" and nm: "brightfield_macros c = []"
  proof
    show "r \<noteq> None" using ok nl nm by auto
    show "main_phase_passes tc c \<longrightarrow> q = - 1 \<and> r = Some no_quickhash_dir"
    proof
      assume mp: "main_phase_passes tc c"
      obtain st e where pm: "process_main_images tc ?lq (images c) initial_state = (st, e)"
        by (cases "process_main_images tc ?lq (images c) initial_state")
      from mp pm have e: "e = None" and fm: "first_main_image st \<noteq> None"
        and sz: "snd (set_level_sizes c (levels st)) = None"
        by (auto simp: main_phase_passes_def split: option.splits)
      obtain ls where ls: "set_level_sizes c (levels st) = (ls, None)"
        using sz by (cases "set_level_sizes c (levels st)") auto
      from main_loop_initial [OF pm [unfolded e]] fm nl have qs: "quickhash_dir st = - 1"
        by (auto simp: main_inv_def initial_state_def split: list.splits)
      have mc: "process_macro_images tc ?lq (images c)
             \<lparr>have_macro_image = False, macro_quickhash_dir = quickhash_dir st\<rparr> =
             (\<lparr>have_macro_image = False, macro_quickhash_dir = quickhash_dir st\<rparr>, None)"
        using nm by (intro no_macro_loop) (simp add: brightfield_macros_def)
      from s [unfolded create_levels_from_collection_def Let_def, folded initial_state_def,
          unfolded pm e] fm ls mc qs
      show "q = - 1 \<and> r = Some no_quickhash_dir"
        by (auto simp: no_quickhash_dir_def)
    qed
  qed
  from ok bad show ?thesis by blast
qed

theorem quickhash_dir_rule_witness:
  "smallest_dimension_dir (hd (surviving (parsed slide_main_macro))) 2 \<and>
   (\<exists>m. brightfield_macros (parsed slide_two_mains) = [m] \<and> smallest_dimension_dir m 10) \<and>
   main_phase_passes tiff_ok (parsed slide_two_mains_no_macro) \<and>
   snd (snd (create_levels_from_collection tiff_ok (parsed slide_two_mains_no_macro) [])) =
     Some no_quickhash_dir"
proof -
  have l1: "should_use_legacy_quickhash (parsed slide_main_macro)"
    by (simp add: slide_main_macro_def model_defs)
  have l2: "\<not> should_use_legacy_quickhash (parsed slide_two_mains)"
    by (simp add: slide_two_mains_def model_defs)
  have l3: "\<not> should_use_legacy_quickhash (parsed slide_two_mains_no_macro) \<and>
            brightfield_macros (parsed slide_two_mains_no_macro) = []"
    by (simp add: slide_two_mains_no_macro_def model_defs)
  have mp: "main_phase_passes tiff_ok (parsed slide_two_mains_no_macro)"
    by (simp add: main_phase_passes_def initial_state_def slide_two_mains_no_macro_def
          model_defs)
  from quickhash_dir_rule [OF parse_slide_main_macro synth_slide_main_macro] l1
  have 1: "smallest_dimension_dir (hd (surviving (parsed slide_main_macro))) 2" by simp
  from quickhash_dir_rule [OF parse_slide_two_mains synth_slide_two_mains] l2
  have 2: "\<exists>m. brightfield_macros (parsed slide_two_mains) = [m] \<and> smallest_dimension_dir m 10"
    by simp
  from quickhash_dir_rule [OF parse_slide_two_mains_no_macro synth_slide_two_mains_no_macro]
    l3 mp
  have 3: "snd (snd (create_levels_from_collection tiff_ok (parsed slide_two_mains_no_macro) []))
             = Some no_quickhash_dir"
    by (simp add: synth_slide_two_mains_no_macro)
  from 1 2 mp 3 show ?thesis by blast
qed




text \<open>
  C5, as the code has it.  When \<open>create_levels_from_collection\<close> succeeds on an empty
  level array, any two surviving main images have the same illumination source, the same
  objective and the same number of dimensions; so it never succeeds on a collection in
  which a surviving main image differs from the first one.  It fails with \<open>BAD_DATA\<close>,
  "Slides with dissimilar main images are not supported", when it reaches a surviving
  main image that has an objective and differs from the first surviving main image in
  objective or in number of dimensions, that is, when the images before it were
  processed without a failure.
\<close>

theorem dissimilar_main_images:
  assumes s: "create_levels_from_collection tc c [] = (lv, q, r)"
  shows "(r = None \<longrightarrow>
            (\<forall>a \<in> set (surviving c). \<forall>b \<in> set (surviving c).
               illumination_source a = illumination_source b \<and>
               objective a = objective b \<and>
               length (dimensions a) = length (dimensions b))) \<and>
         (\<forall>xs d ys.
            images c = xs @ d # ys \<and> filter main_image xs \<noteq> [] \<and> main_image d \<and>
            objective d \<noteq> None \<and>
            (objective d \<noteq> objective (hd (surviving c)) \<or>
             length (dimensions d) \<noteq> length (dimensions (hd (surviving c)))) \<and>
            snd (process_main_images tc (should_use_legacy_quickhash c) xs initial_state) = None
            \<longrightarrow> r = Some dissimilar)"
proof -
  let ?lq = "should_use_legacy_quickhash c"
  have agree: "\<forall>a \<in> set (surviving c). \<forall>b \<in> set (surviving c).
               illumination_source a = illumination_source b \<and>
               objective a = objective b \<and>
               length (dimensions a) = length (dimensions b)" if r: "r = None"
  proof -
    from create_levels_success [OF s [unfolded r]] obtain f ps st where
      sv: "surviving c = f # ps" and inv: "main_inv tc ?lq f ps st"
      by blast
    from inv have a: "\<forall>i \<in> set (f # ps). main_image i \<and> objective i = objective f \<and>
        length (dimensions i) = length (dimensions f)"
      unfolding main_inv_def by blast
    show ?thesis
      unfolding sv using a brightfield_same_source by (metis (no_types, lifting))
  qed
  have differ: "r = Some dissimilar"
    if im: "images c = xs @ d # ys" and ne: "filter main_image xs \<noteq> []" and md: "main_image d"
      and od: "objective d \<noteq> None"
      and df: "objective d \<noteq> objective (hd (surviving c)) \<or>
             length (dimensions d) \<noteq> length (dimensions (hd (surviving c)))"
      and pre: "snd (process_main_images tc ?lq xs initial_state) = None"
    for xs d ys
  proof -
    obtain st where pm: "process_main_images tc ?lq xs initial_state = (st, None)"
      using pre by (cases "process_main_images tc ?lq xs initial_state") auto
    from main_loop_initial [OF pm] ne obtain f ps where
      fx: "filter main_image xs = f # ps" and inv: "main_inv tc ?lq f ps st"
      by (auto split: list.splits)
    have hd: "hd (surviving c) = f" by (simp add: surviving_def im fx)
    from inv have fst: "first_main_image st = Some f" and obf: "objective f \<noteq> None"
      and mf: "main_image f"
      by (auto simp: main_inv_def)
    have "process_main_image tc ?lq d st = (st, Some dissimilar)"
      unfolding process_main_image_later [OF md fst]
      using brightfield_same_source [OF md mf] od obf df [unfolded hd]
      by (auto split: option.splits)
    with pm have "process_main_images tc ?lq (images c) initial_state = (st, Some dissimilar)"
      by (simp add: im process_main_images_append)
    from s [unfolded create_levels_from_collection_def Let_def, folded initial_state_def,
          unfolded this]
    show ?thesis by simp
  qed
  from agree differ show ?thesis by blast
qed

theorem dissimilar_main_images_witness:
  "objective (surviving (parsed slide_two_mains) ! 0) =
     objective (surviving (parsed slide_two_mains) ! 1) \<and>
   length (dimensions (surviving (parsed slide_two_mains) ! 0)) =
     length (dimensions (surviving (parsed slide_two_mains) ! 1)) \<and>
   snd (snd (create_levels_from_collection tiff_ok (parsed slide_dissimilar) [])) =
     Some dissimilar"
proof -
  have n: "length (surviving (parsed slide_two_mains)) = 2"
    by (simp add: slide_two_mains_def model_defs)
  then have m: "surviving (parsed slide_two_mains) ! 0 \<in> set (surviving (parsed slide_two_mains))"
    "surviving (parsed slide_two_mains) ! 1 \<in> set (surviving (parsed slide_two_mains))"
    by (simp_all only: nth_mem)
  from dissimilar_main_images [OF synth_slide_two_mains] m
  have 1: "objective (surviving (parsed slide_two_mains) ! 0) =
             objective (surviving (parsed slide_two_mains) ! 1) \<and>
           length (dimensions (surviving (parsed slide_two_mains) ! 0)) =
             length (dimensions (surviving (parsed slide_two_mains) ! 1))"
    by blast
  let ?c = "parsed slide_dissimilar"
  have im: "images ?c = [images ?c ! 0] @ images ?c ! 1 # []"
    by (simp add: slide_dissimilar_def model_defs)
  have h: "filter main_image [images ?c ! 0] \<noteq> [] \<and> main_image (images ?c ! 1) \<and>
        objective (images ?c ! 1) \<noteq> None \<and>
        (objective (images ?c ! 1) \<noteq> objective (hd (surviving ?c)) \<or>
         length (dimensions (images ?c ! 1)) \<noteq> length (dimensions (hd (surviving ?c)))) \<and>
        snd (process_main_images tiff_ok (should_use_legacy_quickhash ?c) [images ?c ! 0]
               initial_state) = None"
    by (simp add: slide_dissimilar_def initial_state_def model_defs)
  obtain lv q r where e: "create_levels_from_collection tiff_ok ?c [] = (lv, q, r)"
    by (cases "create_levels_from_collection tiff_ok ?c []") auto
  from dissimilar_main_images [OF e, THEN conjunct2, rule_format,
      of "[images ?c ! 0]" "images ?c ! 1" "[]"] im h
  have "r = Some dissimilar" by blast
  with e have 3: "snd (snd (create_levels_from_collection tiff_ok ?c [])) = Some dissimilar"
    by simp
  from 1 3 show ?thesis by blast
qed

theorem dissimilar_preempted_counterexample:
  "parse_xml_description slide_preempted = Inr (parsed slide_preempted) \<and>
   map objective (surviving (parsed slide_preempted)) = [Some ''20'', Some ''20'', Some ''40''] \<and>
   create_levels_from_collection tiff_ok (parsed slide_preempted) [] =
     (synthesized slide_preempted, - 1, Some inconsistent_resolutions) \<and>
   inconsistent_resolutions \<noteq> dissimilar"
  by (simp add: slide_preempted_def inconsistent_resolutions_def dissimilar_def model_defs)

text \<open>
  C6, as the code has it.  After \<open>create_levels_from_collection\<close> succeeds on an empty
  level array, the areas of every level are one per surviving main image, in the order of
  the images, and the offsets of an area are the offsets that the manifest gives its
  image.  The reader does not compare them with the size of the collection: the offsets
  of the areas lie in \<open>[0, clicks_across)\<close> and \<open>[0, clicks_down)\<close> when those of the
  surviving main images do.
\<close>

theorem area_offsets_are_image_offsets:
  assumes s: "create_levels_from_collection tc c [] = (lv, q, None)" and k: "k < length lv"
  shows "map (\<lambda>a. (clicks_offset_x a, clicks_offset_y a)) (areas (lv ! k)) =
           map (\<lambda>i. (image.clicks_offset_x i, image.clicks_offset_y i)) (surviving c) \<and>
         ((\<forall>i \<in> set (surviving c). in_canvas c (image.clicks_offset_x i) (image.clicks_offset_y i))
            \<longrightarrow> (\<forall>a \<in> set (areas (lv ! k)). in_canvas c (clicks_offset_x a) (clicks_offset_y a)))"
proof -
  from success_level [OF s k] obtain f ps where
    sv: "surviving c = f # ps" and len: "length lv = length (dimensions f)"
    and all: "\<forall>i \<in> set (f # ps). length (dimensions i) = length (dimensions f) \<and>
              (\<forall>d \<in> set (dimensions i). snd (new_area tc i d) = None)"
    and sz: "sized c (main_level tc f ps k) (lv ! k)"
    by blast
  have ar: "areas (lv ! k) = map (\<lambda>i. fst (new_area tc i (dimensions i ! k))) (f # ps)"
    using sz by (simp add: sized_def main_level_def)
  have ok: "\<forall>i \<in> set (f # ps). snd (new_area tc i (dimensions i ! k)) = None"
  proof
    fix i assume i: "i \<in> set (f # ps)"
    with all k len have "k < length (dimensions i)" by auto
    then have "dimensions i ! k \<in> set (dimensions i)" by simp
    with all i show "snd (new_area tc i (dimensions i ! k)) = None" by blast
  qed
  have eq: "map (\<lambda>a. (clicks_offset_x a, clicks_offset_y a)) (areas (lv ! k)) =
           map (\<lambda>i. (image.clicks_offset_x i, image.clicks_offset_y i)) (surviving c)"
  proof -
    have "map (\<lambda>a. (clicks_offset_x a, clicks_offset_y a))
            (map (\<lambda>i. fst (new_area tc i (dimensions i ! k))) (f # ps)) =
          map (\<lambda>i. (image.clicks_offset_x i, image.clicks_offset_y i)) (f # ps)"
      unfolding map_map
    proof (rule map_cong [OF refl])
      fix i assume "i \<in> set (f # ps)"
      with ok have "snd (new_area tc i (dimensions i ! k)) = None" by blast
      from new_area_offsets [OF this]
      show "((\<lambda>a. (clicks_offset_x a, clicks_offset_y a)) \<circ>
              (\<lambda>i. fst (new_area tc i (dimensions i ! k)))) i =
            (image.clicks_offset_x i, image.clicks_offset_y i)" by simp
    qed
    then show ?thesis by (simp only: ar sv)
  qed
  have "\<forall>a \<in> set (areas (lv ! k)). in_canvas c (clicks_offset_x a) (clicks_offset_y a)"
    if h: "\<forall>i \<in> set (surviving c). in_canvas c (image.clicks_offset_x i) (image.clicks_offset_y i)"
  proof
    fix a assume "a \<in> set (areas (lv ! k))"
    then have "(clicks_offset_x a, clicks_offset_y a) \<in>
       set (map (\<lambda>a. (clicks_offset_x a, clicks_offset_y a)) (areas (lv ! k)))" by simp
    then obtain i where "i \<in> set (surviving c)"
      "image.clicks_offset_x i = clicks_offset_x a" "image.clicks_offset_y i = clicks_offset_y a"
      unfolding eq by auto
    with h show "in_canvas c (clicks_offset_x a) (clicks_offset_y a)" by auto
  qed
  with eq show ?thesis by blast
qed

theorem area_offsets_are_image_offsets_witness:
  "map (\<lambda>a. (clicks_offset_x a, clicks_offset_y a)) (areas (synthesized slide_two_mains ! 0)) =
     [(0, 0), (100000, 0)] \<and>
   list_all (\<lambda>a. in_canvas (parsed slide_two_mains) (clicks_offset_x a) (clicks_offset_y a))
     (areas (synthesized slide_two_mains ! 0))"
proof -
  have k: "0 < length (synthesized slide_two_mains)"
    by (simp add: slide_two_mains_def model_defs)
  have o: "map (\<lambda>i. (image.clicks_offset_x i, image.clicks_offset_y i))
             (surviving (parsed slide_two_mains)) = [(0, 0), (100000, 0)]"
    by (simp add: slide_two_mains_def model_defs)
  have i: "\<forall>i \<in> set (surviving (parsed slide_two_mains)).
             in_canvas (parsed slide_two_mains) (image.clicks_offset_x i) (image.clicks_offset_y i)"
    by (simp add: in_canvas_def slide_two_mains_def model_defs)
  from area_offsets_are_image_offsets [OF synth_slide_two_mains k] o i
  show ?thesis by (simp add: list_all_iff)
qed

theorem area_offset_outside_counterexample:
  "parse_xml_description slide_offset_outside = Inr (parsed slide_offset_outside) \<and>
   create_levels_from_collection tiff_ok (parsed slide_offset_outside) [] =
     (synthesized slide_offset_outside, 1, None) \<and>
   map (\<lambda>a. (clicks_offset_x a, clicks_offset_y a))
     (areas (synthesized slide_offset_outside ! 0)) = [(200000, - 5)] \<and>
   clicks_across (parsed slide_offset_outside) = 100000 \<and>
   clicks_down (parsed slide_offset_outside) = 80000"
  by (simp add: slide_offset_outside_def model_defs)



section \<open>Theorems: painting\<close>



end
